theory Spec2Isabelle
  imports Complex_Main "HOL-Library.Sublist"
begin

section \<open>JavaScript numbers\<close>

text \<open>
  The order book (\<^verbatim>\<open>components/orderbook.js\<close>) and the trade history compute on
  JavaScript numbers. A number is modelled as an extended rational: a finite value, one of
  the two infinities, or \<^verbatim>\<open>NaN\<close>. The special values follow IEEE 754 (comparisons with
  \<^verbatim>\<open>NaN\<close> are false, \<^verbatim>\<open>Infinity - Infinity\<close> is \<^verbatim>\<open>NaN\<close>, division by zero gives an
  infinity or \<^verbatim>\<open>NaN\<close>). Finite arithmetic is exact: rounding to 64 bits, overflow of a
  finite result to an infinity and the sign of zero are not modelled.
\<close>

datatype jsnum = NaN | NegInf | Fin rat | PosInf

fun jlt :: "jsnum \<Rightarrow> jsnum \<Rightarrow> bool" where
  "jlt NaN y = False"
| "jlt x NaN = False"
| "jlt NegInf NegInf = False"
| "jlt NegInf y = True"
| "jlt (Fin a) (Fin b) = (a < b)"
| "jlt (Fin a) PosInf = True"
| "jlt (Fin a) NegInf = False"
| "jlt PosInf y = False"

definition jgt :: "jsnum \<Rightarrow> jsnum \<Rightarrow> bool" where
  "jgt x y = jlt y x"

definition jle :: "jsnum \<Rightarrow> jsnum \<Rightarrow> bool" where
  "jle x y = (jlt x y \<or> (x = y \<and> x \<noteq> NaN))"

definition jge :: "jsnum \<Rightarrow> jsnum \<Rightarrow> bool" where
  "jge x y = jle y x"

fun jneg :: "jsnum \<Rightarrow> jsnum" where
  "jneg NaN = NaN"
| "jneg NegInf = PosInf"
| "jneg (Fin a) = Fin (- a)"
| "jneg PosInf = NegInf"

fun jadd :: "jsnum \<Rightarrow> jsnum \<Rightarrow> jsnum" where
  "jadd NaN y = NaN"
| "jadd x NaN = NaN"
| "jadd PosInf NegInf = NaN"
| "jadd NegInf PosInf = NaN"
| "jadd PosInf y = PosInf"
| "jadd x PosInf = PosInf"
| "jadd NegInf y = NegInf"
| "jadd x NegInf = NegInf"
| "jadd (Fin a) (Fin b) = Fin (a + b)"

definition jsub :: "jsnum \<Rightarrow> jsnum \<Rightarrow> jsnum" where
  "jsub x y = jadd x (jneg y)"

fun jmul :: "jsnum \<Rightarrow> jsnum \<Rightarrow> jsnum" where
  "jmul NaN y = NaN"
| "jmul x NaN = NaN"
| "jmul (Fin a) (Fin b) = Fin (a * b)"
| "jmul (Fin a) y =
     (if a = 0 then NaN else if (0 < a) = (y = PosInf) then PosInf else NegInf)"
| "jmul x (Fin b) =
     (if b = 0 then NaN else if (0 < b) = (x = PosInf) then PosInf else NegInf)"
| "jmul x y = (if x = y then PosInf else NegInf)"

fun jdiv :: "jsnum \<Rightarrow> jsnum \<Rightarrow> jsnum" where
  "jdiv NaN y = NaN"
| "jdiv x NaN = NaN"
| "jdiv (Fin a) (Fin b) =
     (if b = 0 then (if a = 0 then NaN else if 0 < a then PosInf else NegInf)
      else Fin (a / b))"
| "jdiv (Fin a) y = Fin 0"
| "jdiv x (Fin b) = (if (0 \<le> b) = (x = PosInf) then PosInf else NegInf)"
| "jdiv x y = NaN"

text \<open>
  Reading an array of numbers at an index. Out of range JavaScript yields
  \<^verbatim>\<open>undefined\<close>; every use below is an operand of arithmetic or of a comparison, where
  \<^verbatim>\<open>undefined\<close> converts to \<^verbatim>\<open>NaN\<close>.
\<close>

definition idx :: "jsnum list \<Rightarrow> nat \<Rightarrow> jsnum" where
  "idx item i = (if i < length item then item ! i else NaN)"

section \<open>Raw values of an update\<close>

text \<open>
  A field of a raw level is a number, a string, or missing (\<^verbatim>\<open>undefined\<close>; \<^verbatim>\<open>null\<close>
  behaves the same in every use below). \<^verbatim>\<open>parseFloat\<close> is the host's function: on a
  number it gives the number back, on a missing value \<^verbatim>\<open>NaN\<close>; what it reads from a
  string is the parameter \<open>pf\<close> of the model.
\<close>

datatype jsval = JUndefined | JNumber jsnum | JString string

fun truthy :: "jsval \<Rightarrow> bool" where
  "truthy JUndefined = False"
| "truthy (JNumber n) = (n \<noteq> NaN \<and> n \<noteq> Fin 0)"
| "truthy (JString s) = (s \<noteq> [])"

definition js_or :: "jsval \<Rightarrow> jsval \<Rightarrow> jsval" where
  "js_or a b = (if truthy a then a else b)"

fun parseFloat :: "(string \<Rightarrow> jsnum) \<Rightarrow> jsval \<Rightarrow> jsnum" where
  "parseFloat pf JUndefined = NaN"
| "parseFloat pf (JNumber n) = n"
| "parseFloat pf (JString s) = pf s"

definition elem :: "jsval list \<Rightarrow> nat \<Rightarrow> jsval" where
  "elem xs i = (if i < length xs then xs ! i else JUndefined)"

definition getprop :: "(string \<times> jsval) list \<Rightarrow> string \<Rightarrow> jsval" where
  "getprop obj k = (case map_of obj k of None \<Rightarrow> JUndefined | Some v \<Rightarrow> v)"

text \<open>
  A raw level is a positional array, an object with named fields, or some other non-null
  primitive (for which neither branch of \<^verbatim>\<open>_processDepthData\<close> assigns price or
  quantity). A raw side is an array of raw levels, or a truthy value that is not an array.
\<close>

datatype raw_level =
    LevelArray "jsval list"
  | LevelObject "(string \<times> jsval) list"
  | LevelOther

datatype raw_side = RawArray "raw_level list" | NotArray

section \<open>The ladder builder: \<^verbatim>\<open>_processDepthData\<close>\<close>

text \<open>The callback of \<^verbatim>\<open>data.map\<close>: one raw level to \<^verbatim>\<open>[price, quantity]\<close>.\<close>

definition processLevel :: "(string \<Rightarrow> jsnum) \<Rightarrow> raw_level \<Rightarrow> jsnum list" where
  "processLevel pf item =
     (case item of
        LevelArray xs \<Rightarrow> [parseFloat pf (elem xs 0), parseFloat pf (elem xs 1)]
      | LevelObject obj \<Rightarrow>
          [parseFloat pf (js_or (getprop obj ''price'') (getprop obj ''p'')),
           parseFloat pf
             (js_or (js_or (js_or (getprop obj ''quantity'') (getprop obj ''q''))
                (getprop obj ''amount'')) (getprop obj ''a''))]
      | LevelOther \<Rightarrow> [parseFloat pf JUndefined, parseFloat pf JUndefined])"

text \<open>
  \<^verbatim>\<open>Array.prototype.sort\<close> with a comparison function is a stable sort; a comparison
  result of \<^verbatim>\<open>NaN\<close> counts as zero. It is modelled as the stable insertion sort that
  moves an element behind another one only when the comparison result is positive.
\<close>

fun insort_by :: "('a \<Rightarrow> 'a \<Rightarrow> jsnum) \<Rightarrow> 'a \<Rightarrow> 'a list \<Rightarrow> 'a list" where
  "insort_by cmp x [] = [x]"
| "insort_by cmp x (y # ys) =
     (if jgt (cmp x y) (Fin 0) then y # insort_by cmp x ys else x # y # ys)"

definition array_sort :: "('a \<Rightarrow> 'a \<Rightarrow> jsnum) \<Rightarrow> 'a list \<Rightarrow> 'a list" where
  "array_sort cmp xs = foldr (insort_by cmp) xs []"

text \<open>
  \<^verbatim>\<open>xs.slice(0, end)\<close> for an integer end index: a negative one counts from the
  end of the array.
\<close>

definition array_slice0 :: "int \<Rightarrow> 'a list \<Rightarrow> 'a list" where
  "array_slice0 e xs =
     (let len = int (length xs);
          final = (if e < 0 then max (len + e) 0 else min e len)
      in take (nat final) xs)"

definition depthCompare :: "bool \<Rightarrow> jsnum list \<Rightarrow> jsnum list \<Rightarrow> jsnum" where
  "depthCompare isBids a b =
     (if isBids then jsub (idx b 0) (idx a 0) else jsub (idx a 0) (idx b 0))"

definition processDepthData ::
  "(string \<Rightarrow> jsnum) \<Rightarrow> int \<Rightarrow> raw_side \<Rightarrow> bool \<Rightarrow> jsnum list list" where
  "processDepthData pf maxRows_opt data isBids =
     (case data of
        NotArray \<Rightarrow> []
      | RawArray items \<Rightarrow>
          (let processed = map (processLevel pf) items;
               filtered = filter (\<lambda>item. jgt (idx item 1) (Fin 0)) processed;
               sorted = array_sort (depthCompare isBids) filtered
           in array_slice0 maxRows_opt sorted))"

section \<open>The order book state\<close>

text \<open>
  The data fields of \<^verbatim>\<open>class OrderBook\<close>, with the one option the data depends on
  (\<^verbatim>\<open>options.maxRows\<close>, an integer). A ladder is an array of levels, a level an array of
  numbers: \<^verbatim>\<open>[price, quantity]\<close> as built, with the cumulative quantity appended by
  \<^verbatim>\<open>_calculateStats\<close>. The DOM and the chart are left out; rendering reads the data
  and does not write it.
\<close>

record orderbook =
  maxRows :: int
  bids :: "jsnum list list"
  asks :: "jsnum list list"
  lastUpdateId :: jsnum
  spreadValue :: jsnum
  spreadPercent :: jsnum
  totalBidVolume :: jsnum
  totalAskVolume :: jsnum

text \<open>The constructor: \<^verbatim>\<open>maxRows\<close> is 15 unless the options give one.\<close>

definition OrderBook_new :: "int option \<Rightarrow> orderbook" where
  "OrderBook_new opt =
     \<lparr> maxRows = (case opt of None \<Rightarrow> 15 | Some m \<Rightarrow> m),
       bids = [], asks = [], lastUpdateId = Fin 0,
       spreadValue = Fin 0, spreadPercent = Fin 0,
       totalBidVolume = Fin 0, totalAskVolume = Fin 0 \<rparr>"

text \<open>\<^verbatim>\<open>side.reduce((sum, item) => sum + item[1], 0)\<close>\<close>

definition volume :: "jsnum list list \<Rightarrow> jsnum" where
  "volume side = foldl (\<lambda>sum item. jadd sum (idx item 1)) (Fin 0) side"

text \<open>
  The \<^verbatim>\<open>map\<close> that appends the running total to every level; \<open>acc\<close> is the
  variable \<^verbatim>\<open>bidTotal\<close> (\<^verbatim>\<open>askTotal\<close>) before the level is visited.
\<close>

fun attachTotals :: "jsnum \<Rightarrow> jsnum list list \<Rightarrow> jsnum list list" where
  "attachTotals acc [] = []"
| "attachTotals acc (item # rest) =
     (let acc' = jadd acc (idx item 1)
      in (item @ [acc']) # attachTotals acc' rest)"

definition calculateStats :: "orderbook \<Rightarrow> orderbook" where
  "calculateStats ob =
     (let (sv, sp) =
            (if length (asks ob) > 0 \<and> length (bids ob) > 0 then
               (let lowestAsk = idx (asks ob ! 0) 0;
                    highestBid = idx (bids ob ! 0) 0;
                    sv = jsub lowestAsk highestBid
                in (sv, jmul (jdiv sv lowestAsk) (Fin 100)))
             else (Fin 0, Fin 0))
      in ob\<lparr> spreadValue := sv, spreadPercent := sp,
              totalBidVolume := volume (bids ob),
              totalAskVolume := volume (asks ob),
              bids := attachTotals (Fin 0) (bids ob),
              asks := attachTotals (Fin 0) (asks ob) \<rparr>)"

text \<open>
  The argument of \<^verbatim>\<open>update\<close>: \<open>None\<close> is a falsy argument (\<^verbatim>\<open>null\<close>,
  \<^verbatim>\<open>undefined\<close>). In the object, each field is present or not; a side that is present
  is truthy.
\<close>

record raw_update =
  u_lastUpdateId :: "jsnum option"
  u_bids :: "raw_side option"
  u_asks :: "raw_side option"

definition update ::
  "(string \<Rightarrow> jsnum) \<Rightarrow> raw_update option \<Rightarrow> orderbook \<Rightarrow> orderbook" where
  "update pf data ob =
     (case data of
        None \<Rightarrow> ob
      | Some d \<Rightarrow>
          (let ob1 = (case u_lastUpdateId d of
                        None \<Rightarrow> ob
                      | Some i \<Rightarrow>
                          if truthy (JNumber i) \<and> jgt i (lastUpdateId ob)
                          then ob\<lparr>lastUpdateId := i\<rparr> else ob);
               ob2 = (case u_bids d of
                        None \<Rightarrow> ob1
                      | Some b \<Rightarrow> ob1\<lparr>bids := processDepthData pf (maxRows ob1) b True\<rparr>);
               ob3 = (case u_asks d of
                        None \<Rightarrow> ob2
                      | Some a \<Rightarrow> ob2\<lparr>asks := processDepthData pf (maxRows ob2) a False\<rparr>)
           in calculateStats ob3))"

text \<open>
  \<^verbatim>\<open>updateOptions\<close> assigns the given options over the current ones; \<open>None\<close> is an
  options object without \<^verbatim>\<open>maxRows\<close>.
\<close>

definition updateOptions :: "int option \<Rightarrow> orderbook \<Rightarrow> orderbook" where
  "updateOptions opt ob = (case opt of None \<Rightarrow> ob | Some m \<Rightarrow> ob\<lparr>maxRows := m\<rparr>)"

text \<open>The states an order book can be in: built, then updated and reconfigured.\<close>

inductive reachable :: "(string \<Rightarrow> jsnum) \<Rightarrow> orderbook \<Rightarrow> bool"
  for pf :: "string \<Rightarrow> jsnum" where
  reach_new: "reachable pf (OrderBook_new opt)"
| reach_update: "reachable pf ob \<Longrightarrow> reachable pf (update pf data ob)"
| reach_options: "reachable pf ob \<Longrightarrow> reachable pf (updateOptions opt ob)"

section \<open>The trade history: the last price and the direction of a new trade\<close>

text \<open>
  Of \<^verbatim>\<open>class TradeHistory\<close>: the trades (newest first; of a processed trade its price,
  quantity and amount), \<^verbatim>\<open>lastPrice\<close> (\<open>None\<close> is \<^verbatim>\<open>null\<close>), the current page,
  whether there is a table body to render into (\<^verbatim>\<open>this.tableBody\<close> is not null), and
  the options \<^verbatim>\<open>maxRows\<close>, \<^verbatim>\<open>priceChangeColors\<close> and \<^verbatim>\<open>autoUpdate\<close>. The filtered
  and sorted copy of the trades and the rows of the table are left out.
\<close>

record trade =
  t_price :: jsnum
  t_quantity :: jsnum
  t_amount :: jsnum

record tradehistory =
  trades :: "trade list"
  lastPrice :: "jsnum option"
  currentPage :: int
  tableBody :: bool
  th_maxRows :: int
  priceChangeColors :: bool
  autoUpdate :: bool

text \<open>
  \<^verbatim>\<open>_getTradePrice\<close> and \<^verbatim>\<open>_getTradeQuantity\<close> on a raw trade object: a number is
  taken as it is, anything else goes through \<^verbatim>\<open>parseFloat\<close>.
\<close>

definition toNumber :: "(string \<Rightarrow> jsnum) \<Rightarrow> jsval \<Rightarrow> jsnum" where
  "toNumber pf v = (case v of JNumber n \<Rightarrow> n | _ \<Rightarrow> parseFloat pf v)"

definition getTradePrice :: "(string \<Rightarrow> jsnum) \<Rightarrow> (string \<times> jsval) list \<Rightarrow> jsnum" where
  "getTradePrice pf t = toNumber pf (js_or (getprop t ''price'') (getprop t ''p''))"

definition getTradeQuantity :: "(string \<Rightarrow> jsnum) \<Rightarrow> (string \<times> jsval) list \<Rightarrow> jsnum" where
  "getTradeQuantity pf t =
     toNumber pf
       (js_or (js_or (js_or (getprop t ''quantity'') (getprop t ''amount''))
          (getprop t ''q'')) (getprop t ''a''))"

definition processTrade :: "(string \<Rightarrow> jsnum) \<Rightarrow> (string \<times> jsval) list \<Rightarrow> trade" where
  "processTrade pf t =
     (let p = getTradePrice pf t; q = getTradeQuantity pf t
      in \<lparr> t_price = p, t_quantity = q, t_amount = jmul p q \<rparr>)"

text \<open>
  \<^verbatim>\<open>_applyFilters\<close> rebuilds the filtered copy, goes back to the first page and draws
  the page again; in that drawing (\<^verbatim>\<open>_renderCurrentPage\<close>) the price cell of every row
  has the class \<^verbatim>\<open>price\<close> and the side, and no class for a price change. Of this the
  state keeps the page.
\<close>

definition applyFilters :: "tradehistory \<Rightarrow> tradehistory" where
  "applyFilters th = th\<lparr> currentPage := 1 \<rparr>"

text \<open>
  \<^verbatim>\<open>addTrade\<close>, up to the call of the renderer: \<^verbatim>\<open>lastPrice\<close> becomes the price of
  the trade that was newest so far, the new trade goes in front, the oldest is dropped
  when the list is longer than \<^verbatim>\<open>maxRows\<close>, and the filters are applied.
  \<open>None\<close> is a falsy argument.
\<close>

definition addTrade ::
  "(string \<Rightarrow> jsnum) \<Rightarrow> (string \<times> jsval) list option \<Rightarrow> tradehistory \<Rightarrow> tradehistory" where
  "addTrade pf tr th =
     (case tr of
        None \<Rightarrow> th
      | Some t \<Rightarrow>
          (let processed = processTrade pf t;
               lp = (if length (trades th) > 0 then Some (t_price (trades th ! 0)) else None);
               ts = processed # trades th;
               ts' = (if int (length ts) > th_maxRows th then butlast ts else ts)
           in applyFilters (th\<lparr> lastPrice := lp, trades := ts' \<rparr>)))"

text \<open>
  The class that \<^verbatim>\<open>_renderNewTrade\<close> gives the price cell of the new trade:
  \<^verbatim>\<open>price-up\<close>, \<^verbatim>\<open>price-down\<close> or the empty string.
\<close>

definition priceChangeClass :: "tradehistory \<Rightarrow> trade \<Rightarrow> string" where
  "priceChangeClass th t =
     (case lastPrice th of
        None \<Rightarrow> []
      | Some lp \<Rightarrow>
          if priceChangeColors th then
            (if jgt (t_price t) lp then ''price-up''
             else if jlt (t_price t) lp then ''price-down'' else [])
          else [])"

text \<open>
  \<^verbatim>\<open>_renderNewTrade\<close> returns at once without a table body or off the first page
  (\<open>None\<close>); otherwise it puts a row for the trade on top of the table, and the result
  is the price-change class of that row.
\<close>

definition renderNewTrade :: "tradehistory \<Rightarrow> trade \<Rightarrow> string option" where
  "renderNewTrade th t =
     (if \<not> tableBody th \<or> currentPage th \<noteq> 1 then None
      else Some (priceChangeClass th t))"

text \<open>
  The end of \<^verbatim>\<open>addTrade\<close>: after the state change, the new trade is handed to
  \<^verbatim>\<open>_renderNewTrade\<close> only when \<^verbatim>\<open>autoUpdate\<close> is on and the first page is shown.
  The result is the price-change class that \<^verbatim>\<open>addTrade\<close> gives the new trade;
  \<open>None\<close> when it gives none, the trade then having only the row without such a class
  that \<^verbatim>\<open>_applyFilters\<close> drew.
\<close>

definition newTradeClass ::
  "(string \<Rightarrow> jsnum) \<Rightarrow> (string \<times> jsval) list \<Rightarrow> tradehistory \<Rightarrow> string option" where
  "newTradeClass pf t th =
     (let th' = addTrade pf (Some t) th
      in if autoUpdate th' \<and> currentPage th' = 1
         then renderNewTrade th' (processTrade pf t) else None)"

section \<open>Reading a ladder\<close>

text \<open>The components of a level, as the renderer destructures them.\<close>

abbreviation price :: "jsnum list \<Rightarrow> jsnum" where
  "price lv \<equiv> idx lv 0"

abbreviation quantity :: "jsnum list \<Rightarrow> jsnum" where
  "quantity lv \<equiv> idx lv 1"

abbreviation cumulative :: "jsnum list \<Rightarrow> jsnum" where
  "cumulative lv \<equiv> idx lv 2"

text \<open>
  The shape of a stored ladder: every level has a positive quantity and at least three
  components, of which the third is the running total of the quantities.
\<close>

definition ladder_ok :: "jsnum list list \<Rightarrow> bool" where
  "ladder_ok L \<longleftrightarrow>
     list_all (\<lambda>lv. 3 \<le> length lv \<and> jgt (quantity lv) (Fin 0)) L \<and>
     map (take 3) L = attachTotals (Fin 0) (map (take 2) L)"

section \<open>Example inputs\<close>

text \<open>A \<^verbatim>\<open>parseFloat\<close> that reads no string as a number; the examples pass numbers.\<close>

definition pf_nan :: "string \<Rightarrow> jsnum" where
  "pf_nan s = NaN"

definition pair :: "rat \<Rightarrow> rat \<Rightarrow> raw_level" where
  "pair p q = LevelArray [JNumber (Fin p), JNumber (Fin q)]"

text \<open>\<^verbatim>\<open>{bids: [[100,1],[99,2]], asks: [[101,1],[102,2]]}\<close>\<close>

definition snapshot_ex :: raw_update where
  "snapshot_ex =
     \<lparr> u_lastUpdateId = None,
       u_bids = Some (RawArray [pair 100 1, pair 99 2]),
       u_asks = Some (RawArray [pair 101 1, pair 102 2]) \<rparr>"

text \<open>\<^verbatim>\<open>{bids: [[50,1]]}\<close>\<close>

definition bids_only_ex :: raw_update where
  "bids_only_ex =
     \<lparr> u_lastUpdateId = None, u_bids = Some (RawArray [pair 50 1]), u_asks = None \<rparr>"

text \<open>\<^verbatim>\<open>{bids: [[1,1]], asks: [[0,1]]}\<close>: a best ask price of zero.\<close>

definition zero_ask_ex :: raw_update where
  "zero_ask_ex =
     \<lparr> u_lastUpdateId = None,
       u_bids = Some (RawArray [pair 1 1]),
       u_asks = Some (RawArray [pair 0 1]) \<rparr>"

text \<open>
  \<^verbatim>\<open>{bids: [{q: 1}], asks: [[7, Infinity]]}\<close>: a level without a price and a level with
  an infinite quantity.
\<close>

definition malformed_ex :: raw_update where
  "malformed_ex =
     \<lparr> u_lastUpdateId = None,
       u_bids = Some (RawArray [LevelObject [(''q'', JNumber (Fin 1))]]),
       u_asks = Some (RawArray [LevelArray [JNumber (Fin 7), JNumber PosInf]]) \<rparr>"

text \<open>\<^verbatim>\<open>{bids: [{q: 1}, [5, 1]]}\<close>: a level without a price before a priced one.\<close>

definition nan_price_ex :: raw_update where
  "nan_price_ex =
     \<lparr> u_lastUpdateId = None,
       u_bids = Some (RawArray [LevelObject [(''q'', JNumber (Fin 1))], pair 5 1]),
       u_asks = None \<rparr>"

text \<open>\<^verbatim>\<open>{lastUpdateId: 3, bids: [[3,1],[2,1],[1,1]]}\<close>\<close>

definition three_bids_ex :: raw_update where
  "three_bids_ex =
     \<lparr> u_lastUpdateId = Some (Fin 3),
       u_bids = Some (RawArray [pair 3 1, pair 2 1, pair 1 1]),
       u_asks = None \<rparr>"

text \<open>
  A fresh trade history with the default options (its constructor has built the table),
  the same with \<^verbatim>\<open>autoUpdate\<close> off, and the trade \<^verbatim>\<open>{price: p}\<close>.
\<close>

definition TradeHistory_new :: tradehistory where
  "TradeHistory_new =
     \<lparr> trades = [], lastPrice = None, currentPage = 1, tableBody = True,
       th_maxRows = 50, priceChangeColors = True, autoUpdate = True \<rparr>"

definition TradeHistory_manual :: tradehistory where
  "TradeHistory_manual = TradeHistory_new\<lparr> autoUpdate := False \<rparr>"

definition trade_at :: "rat \<Rightarrow> (string \<times> jsval) list" where
  "trade_at p = [(''price'', JNumber (Fin p))]"

text \<open>
  \<^verbatim>\<open>{lastUpdateId: 2, bids: [[50,1]]}\<close>: an update with an older id.
\<close>

definition older_ex :: raw_update where
  "older_ex =
     \<lparr> u_lastUpdateId = Some (Fin 2), u_bids = Some (RawArray [pair 50 1]), u_asks = None \<rparr>"

text \<open>
  \<^verbatim>\<open>{bids: [[2,1],[3,1],[2,5]]}\<close>: two levels at the same price.
\<close>

definition tie_ex :: raw_update where
  "tie_ex =
     \<lparr> u_lastUpdateId = None,
       u_bids = Some (RawArray [pair 2 1, pair 3 1, pair 2 5]),
       u_asks = None \<rparr>"

section \<open>The larger of two numbers\<close>

text \<open>
  The maximum of two numbers as \<^verbatim>\<open>Math.max\<close> computes it: \<^verbatim>\<open>NaN\<close> when either
  is \<^verbatim>\<open>NaN\<close>. The source does not call it; the statement about the last update id
  compares the stored id with it.
\<close>

definition jmax :: "jsnum \<Rightarrow> jsnum \<Rightarrow> jsnum" where
  "jmax x y = (if x = NaN \<or> y = NaN then NaN else if jlt x y then y else x)"

section \<open>Auxiliary facts\<close>

subsection \<open>Comparison and addition\<close>

lemma jgt_zero_iff: "jgt q (Fin 0) \<longleftrightarrow> q = PosInf \<or> (\<exists>r. q = Fin r \<and> 0 < r)"
  by (cases q) (simp_all add: jgt_def)

lemma jge_zero_iff: "jge t (Fin 0) \<longleftrightarrow> t = PosInf \<or> (\<exists>r. t = Fin r \<and> 0 \<le> r)"
  by (cases t) (auto simp: jge_def jle_def)

lemma jle_trans: "jle x y \<Longrightarrow> jle y z \<Longrightarrow> jle x z"
  by (cases x; cases y; cases z) (auto simp: jle_def)

lemma jle_total: "x \<noteq> NaN \<Longrightarrow> y \<noteq> NaN \<Longrightarrow> jle x y \<or> jle y x"
  by (cases x; cases y) (auto simp: jle_def)

lemma jadd_pos_mono:
  "jge t (Fin 0) \<Longrightarrow> jgt q (Fin 0) \<Longrightarrow> jle t (jadd t q) \<and> jge (jadd t q) (Fin 0)"
  by (auto simp: jgt_zero_iff jge_zero_iff jle_def)

lemma not_jgt_sub_desc:
  "a \<noteq> NaN \<Longrightarrow> b \<noteq> NaN \<Longrightarrow> \<not> jgt (jsub b a) (Fin 0) \<longleftrightarrow> jge a b"
  by (cases a; cases b) (auto simp: jgt_def jsub_def jge_def jle_def)

lemma not_jgt_sub_asc:
  "a \<noteq> NaN \<Longrightarrow> b \<noteq> NaN \<Longrightarrow> \<not> jgt (jsub a b) (Fin 0) \<longleftrightarrow> jle a b"
  by (cases a; cases b) (auto simp: jgt_def jsub_def jle_def)

lemma not_jgt_sub_same: "\<not> jgt (jsub a a) (Fin 0)"
  by (cases a) (auto simp: jgt_def jsub_def)

subsection \<open>The sort\<close>

lemma set_insort_by: "set (insort_by cmp x ys) = insert x (set ys)"
  by (induction ys) auto

lemma set_array_sort: "set (array_sort cmp xs) = set xs"
  by (induction xs) (auto simp: array_sort_def set_insort_by)

lemma sorted_insort_by:
  assumes tot: "\<And>a b. a \<in> insert x (set ys) \<Longrightarrow> b \<in> insert x (set ys) \<Longrightarrow> le a b \<or> le b a"
    and tr: "\<And>a b c. le a b \<Longrightarrow> le b c \<Longrightarrow> le a c"
    and cmp: "\<And>a b. a \<in> insert x (set ys) \<Longrightarrow> b \<in> insert x (set ys) \<Longrightarrow>
                 (\<not> jgt (cmp a b) (Fin 0)) = le a b"
    and srt: "sorted_wrt le ys"
  shows "sorted_wrt le (insort_by cmp x ys)"
  using tot cmp srt
proof (induction ys)
  case Nil
  then show ?case by simp
next
  case (Cons y ys)
  show ?case
  proof (cases "jgt (cmp x y) (Fin 0)")
    case True
    then have "\<not> le x y" using Cons.prems(2)[of x y] by simp
    then have yx: "le y x" using Cons.prems(1)[of x y] by auto
    have "sorted_wrt le (insort_by cmp x ys)"
      using Cons.prems by (intro Cons.IH) auto
    moreover have "\<forall>z \<in> set (insort_by cmp x ys). le y z"
      using yx Cons.prems(3) by (auto simp: set_insort_by)
    ultimately show ?thesis using True by simp
  next
    case False
    then have xy: "le x y" using Cons.prems(2)[of x y] by simp
    then have "\<forall>z \<in> set ys. le x z" using Cons.prems(3) tr by auto
    then show ?thesis using False xy Cons.prems(3) by simp
  qed
qed

lemma sorted_array_sort:
  assumes tot: "\<And>a b. a \<in> set xs \<Longrightarrow> b \<in> set xs \<Longrightarrow> le a b \<or> le b a"
    and tr: "\<And>a b c. le a b \<Longrightarrow> le b c \<Longrightarrow> le a c"
    and cmp: "\<And>a b. a \<in> set xs \<Longrightarrow> b \<in> set xs \<Longrightarrow> (\<not> jgt (cmp a b) (Fin 0)) = le a b"
  shows "sorted_wrt le (array_sort cmp xs)"
  using tot cmp
proof (induction xs)
  case Nil
  then show ?case by (simp add: array_sort_def)
next
  case (Cons x xs)
  have ih: "sorted_wrt le (array_sort cmp xs)"
    using Cons.prems by (intro Cons.IH) auto
  have "sorted_wrt le (insort_by cmp x (array_sort cmp xs))"
    using Cons.prems tr ih by (intro sorted_insort_by) (auto simp: set_array_sort)
  then show ?case by (simp add: array_sort_def)
qed

lemma filter_insort_by_stable:
  assumes "\<And>y. key y = key x \<Longrightarrow> \<not> jgt (cmp x y) (Fin 0)"
  shows "filter (\<lambda>y. key y = k) (insort_by cmp x ys) =
         filter (\<lambda>y. key y = k) (x # ys)"
  using assms by (induction ys) auto

lemma filter_array_sort_stable:
  assumes "\<And>x y. key y = key x \<Longrightarrow> \<not> jgt (cmp x y) (Fin 0)"
  shows "filter (\<lambda>y. key y = k) (array_sort cmp xs) = filter (\<lambda>y. key y = k) xs"
proof (induction xs)
  case Nil
  then show ?case by (simp add: array_sort_def)
next
  case (Cons x xs)
  have "filter (\<lambda>y. key y = k) (array_sort cmp (x # xs)) =
        filter (\<lambda>y. key y = k) (x # array_sort cmp xs)"
    unfolding array_sort_def foldr.simps o_apply
    by (rule filter_insort_by_stable) (rule assms)
  then show ?case using Cons.IH by simp
qed

subsection \<open>Built ladders\<close>

lemma idx_append_lt: "i < length lv \<Longrightarrow> idx (lv @ ys) i = idx lv i"
  by (simp add: idx_def nth_append)

lemma idx_append_len: "idx (lv @ [t]) (length lv) = t"
  by (simp add: idx_def)

lemma idx_take: "i < n \<Longrightarrow> idx (take n lv) i = idx lv i"
  by (simp add: idx_def)

lemma length_processLevel: "length (processLevel pf item) = 2"
  by (cases item) (simp_all add: processLevel_def)

lemma array_slice0_take: "\<exists>k. array_slice0 m xs = take k xs"
  by (auto simp: array_slice0_def Let_def)

lemma set_array_slice0: "set (array_slice0 m xs) \<subseteq> set xs"
  using array_slice0_take[of m xs] by (auto dest: in_set_takeD)

lemma processDepthData_RawArray:
  "processDepthData pf m (RawArray items) isBids =
     array_slice0 m (array_sort (depthCompare isBids)
       (filter (\<lambda>item. jgt (quantity item) (Fin 0)) (map (processLevel pf) items)))"
  by (simp add: processDepthData_def)

lemma processDepthData_levels:
  assumes "lv \<in> set (processDepthData pf m raw isBids)"
  shows "length lv = 2 \<and> jgt (quantity lv) (Fin 0)"
proof (cases raw)
  case NotArray
  with assms show ?thesis by (simp add: processDepthData_def)
next
  case (RawArray items)
  from assms have "lv \<in> set (filter (\<lambda>item. jgt (quantity item) (Fin 0)) (map (processLevel pf) items))"
    unfolding RawArray processDepthData_RawArray
    using set_array_slice0 set_array_sort by fastforce
  then show ?thesis by (auto simp: length_processLevel)
qed

subsection \<open>Running totals\<close>

lemma length_attachTotals: "length (attachTotals a L) = length L"
  by (induction L arbitrary: a) (simp_all add: Let_def)

lemma attachTotals_Nil_iff: "attachTotals a L = [] \<longleftrightarrow> L = []"
  by (cases L) (simp_all add: Let_def)

lemma map_take_attachTotals:
  "list_all (\<lambda>lv. n \<le> length lv) L \<Longrightarrow> map (take n) (attachTotals a L) = map (take n) L"
  by (induction L arbitrary: a) (simp_all add: Let_def)

lemma map_idx_attachTotals:
  "list_all (\<lambda>lv. i < length lv) L \<Longrightarrow>
     map (\<lambda>lv. idx lv i) (attachTotals a L) = map (\<lambda>lv. idx lv i) L"
  by (induction L arbitrary: a) (simp_all add: Let_def idx_append_lt)

lemma attachTotals_levels3:
  "list_all (\<lambda>lv. length lv = 2) L \<Longrightarrow> list_all (\<lambda>lv. length lv = 3) (attachTotals a L)"
  by (induction L arbitrary: a) (simp_all add: Let_def)

lemma attachTotals_lengths:
  "list_all (\<lambda>lv. n \<le> length lv) L \<Longrightarrow> list_all (\<lambda>lv. Suc n \<le> length lv) (attachTotals a L)"
  by (induction L arbitrary: a) (simp_all add: Let_def)

lemma map_butlast_attachTotals: "map butlast (attachTotals a L) = L"
  by (induction L arbitrary: a) (simp_all add: Let_def)

lemma map_take_id: "list_all (\<lambda>lv. length lv \<le> n) L \<Longrightarrow> map (take n) L = L"
  by (induction L) simp_all

lemma volume_foldl: "volume L = foldl jadd (Fin 0) (map quantity L)"
  by (simp add: volume_def foldl_map)

text \<open>The running totals of freshly built levels.\<close>

lemma attachTotals_mono:
  assumes "list_all (\<lambda>lv. length lv = 2 \<and> jgt (quantity lv) (Fin 0)) K" "jge a (Fin 0)"
  shows "sorted_wrt (\<lambda>x y. jle (cumulative x) (cumulative y)) (attachTotals a K) \<and>
         list_all (\<lambda>x. jle a (cumulative x)) (attachTotals a K)"
  using assms
proof (induction K arbitrary: a)
  case Nil
  then show ?case by simp
next
  case (Cons lv K)
  define a' where "a' = jadd a (quantity lv)"
  have len: "length lv = 2" and q: "jgt (quantity lv) (Fin 0)" using Cons.prems by auto
  have step: "jle a a'" "jge a' (Fin 0)"
    using jadd_pos_mono[OF Cons.prems(2) q] by (simp_all add: a'_def)
  have ih: "sorted_wrt (\<lambda>x y. jle (cumulative x) (cumulative y)) (attachTotals a' K)"
       "list_all (\<lambda>x. jle a' (cumulative x)) (attachTotals a' K)"
    using Cons.IH[of a'] Cons.prems(1) step(2) by auto
  have cum: "cumulative (lv @ [a']) = a'"
    using idx_append_len[of lv a'] len by simp
  have "list_all (\<lambda>x. jle a (cumulative x)) (attachTotals a' K)"
    using ih(2) step(1) by (auto simp: list_all_iff intro: jle_trans)
  moreover have eq: "attachTotals a (lv # K) = (lv @ [a']) # attachTotals a' K"
    by (simp add: a'_def Let_def)
  ultimately show ?case
    unfolding eq using ih step cum by (simp add: list_all_iff)
qed

lemma attachTotals_last:
  assumes "list_all (\<lambda>lv. length lv = 2) K" "K \<noteq> []"
  shows "cumulative (last (attachTotals a K)) = foldl jadd a (map quantity K)"
  using assms
proof (induction K arbitrary: a)
  case Nil
  then show ?case by simp
next
  case (Cons lv K)
  have len: "length lv = 2" using Cons.prems by simp
  have cum: "cumulative (lv @ [jadd a (quantity lv)]) = jadd a (quantity lv)"
    using idx_append_len[of lv] len by simp
  show ?case
  proof (cases "K = []")
    case True
    then show ?thesis using cum by (simp add: Let_def)
  next
    case False
    then show ?thesis
      using Cons.IH[of "jadd a (quantity lv)"] Cons.prems
      by (simp add: Let_def attachTotals_Nil_iff)
  qed
qed

subsection \<open>The update and the reachable states\<close>

lemma update_None: "update pf None ob = ob"
  by (simp add: update_def)

lemma bids_update:
  "bids (update pf (Some d) ob) =
     attachTotals (Fin 0)
       (case u_bids d of None \<Rightarrow> bids ob | Some b \<Rightarrow> processDepthData pf (maxRows ob) b True)"
  by (simp add: update_def calculateStats_def Let_def split: option.splits prod.splits)

lemma asks_update:
  "asks (update pf (Some d) ob) =
     attachTotals (Fin 0)
       (case u_asks d of None \<Rightarrow> asks ob | Some a \<Rightarrow> processDepthData pf (maxRows ob) a False)"
  by (simp add: update_def calculateStats_def Let_def split: option.splits prod.splits)

lemma maxRows_update: "maxRows (update pf data ob) = maxRows ob"
  by (simp add: update_def calculateStats_def Let_def split: option.splits prod.splits)

lemma lastUpdateId_update:
  "lastUpdateId (update pf (Some d) ob) =
     (case u_lastUpdateId d of
        None \<Rightarrow> lastUpdateId ob
      | Some i \<Rightarrow> if truthy (JNumber i) \<and> jgt i (lastUpdateId ob) then i else lastUpdateId ob)"
  by (simp add: update_def calculateStats_def Let_def split: option.splits prod.splits)

lemma totalBidVolume_update:
  "totalBidVolume (update pf (Some d) ob) =
     volume (case u_bids d of None \<Rightarrow> bids ob | Some b \<Rightarrow> processDepthData pf (maxRows ob) b True)"
  by (simp add: update_def calculateStats_def Let_def split: option.splits prod.splits)

lemma totalAskVolume_update:
  "totalAskVolume (update pf (Some d) ob) =
     volume (case u_asks d of None \<Rightarrow> asks ob | Some a \<Rightarrow> processDepthData pf (maxRows ob) a False)"
  by (simp add: update_def calculateStats_def Let_def split: option.splits prod.splits)

lemma ladder_ok_Nil: "ladder_ok []"
  by (simp add: ladder_ok_def)

lemma ladder_ok_fresh:
  assumes "list_all (\<lambda>lv. length lv = 2 \<and> jgt (quantity lv) (Fin 0)) K"
  shows "ladder_ok (attachTotals (Fin 0) K)"
proof -
  have len2: "list_all (\<lambda>lv. length lv = 2) K" and le2: "list_all (\<lambda>lv. 2 \<le> length lv) K"
    and lt1: "list_all (\<lambda>lv. 1 < length lv) K"
    using assms by (simp_all add: list_all_iff)
  have len3: "list_all (\<lambda>lv. length lv = 3) (attachTotals (Fin 0) K)"
    using attachTotals_levels3[OF len2] .
  have q: "map quantity (attachTotals (Fin 0) K) = map quantity K"
    using map_idx_attachTotals[OF lt1] .
  have "list_all (\<lambda>lv. jgt (quantity lv) (Fin 0)) (attachTotals (Fin 0) K)"
  proof -
    have "list_all (\<lambda>x. jgt x (Fin 0)) (map quantity K)"
      using assms by (simp add: list_all_iff)
    then have "list_all (\<lambda>x. jgt x (Fin 0)) (map quantity (attachTotals (Fin 0) K))"
      by (simp only: q)
    then show ?thesis by (simp add: list_all_iff)
  qed
  then have a: "list_all (\<lambda>lv. 3 \<le> length lv \<and> jgt (quantity lv) (Fin 0)) (attachTotals (Fin 0) K)"
    using len3 by (simp add: list_all_iff)
  have t3: "map (take 3) (attachTotals (Fin 0) K) = attachTotals (Fin 0) K"
    using len3 by (intro map_take_id) (simp add: list_all_iff)
  have t2: "map (take 2) (attachTotals (Fin 0) K) = K"
    using map_take_attachTotals[OF le2] map_take_id[of 2 K] len2 by (simp add: list_all_iff)
  show ?thesis unfolding ladder_ok_def using a t3 t2 by simp
qed

lemma ladder_ok_again:
  assumes "ladder_ok L"
  shows "ladder_ok (attachTotals (Fin 0) L)"
proof -
  have ge3: "list_all (\<lambda>lv. 3 \<le> length lv) L" and ge2: "list_all (\<lambda>lv. 2 \<le> length lv) L"
    and lt1: "list_all (\<lambda>lv. 1 < length lv) L"
    using assms by (auto simp: ladder_ok_def list_all_iff)
  have q: "map quantity (attachTotals (Fin 0) L) = map quantity L"
    using map_idx_attachTotals[OF lt1] .
  have "list_all (\<lambda>lv. jgt (quantity lv) (Fin 0)) (attachTotals (Fin 0) L)"
  proof -
    have "list_all (\<lambda>x. jgt x (Fin 0)) (map quantity L)"
      using assms by (simp add: ladder_ok_def list_all_iff)
    then have "list_all (\<lambda>x. jgt x (Fin 0)) (map quantity (attachTotals (Fin 0) L))"
      by (simp only: q)
    then show ?thesis by (simp add: list_all_iff)
  qed
  moreover have "list_all (\<lambda>lv. 3 \<le> length lv) (attachTotals (Fin 0) L)"
    using attachTotals_lengths[OF ge3, of "Fin 0"] by (auto simp: list_all_iff)
  ultimately have a: "list_all (\<lambda>lv. 3 \<le> length lv \<and> jgt (quantity lv) (Fin 0)) (attachTotals (Fin 0) L)"
    by (simp add: list_all_iff)
  have "map (take 3) (attachTotals (Fin 0) L) = map (take 3) L"
    using map_take_attachTotals[OF ge3] .
  moreover have "map (take 2) (attachTotals (Fin 0) L) = map (take 2) L"
    using map_take_attachTotals[OF ge2] .
  ultimately show ?thesis using assms a by (simp add: ladder_ok_def)
qed

lemma ladder_ok_update_side:
  assumes "ladder_ok L"
  shows "ladder_ok (attachTotals (Fin 0)
           (case raw of None \<Rightarrow> L | Some r \<Rightarrow> processDepthData pf m r isBids))"
proof (cases raw)
  case None
  then show ?thesis using ladder_ok_again[OF assms] by simp
next
  case (Some r)
  have "list_all (\<lambda>lv. length lv = 2 \<and> jgt (quantity lv) (Fin 0)) (processDepthData pf m r isBids)"
    using processDepthData_levels[of _ pf m r isBids] by (simp add: list_all_iff)
  then show ?thesis using Some ladder_ok_fresh by simp
qed

lemma volume_attachTotals:
  "list_all (\<lambda>lv. 1 < length lv) L \<Longrightarrow> volume (attachTotals a L) = volume L"
  by (simp add: volume_foldl map_idx_attachTotals)

lemma ladder_ok_lt1: "ladder_ok L \<Longrightarrow> list_all (\<lambda>lv. 1 < length lv) L"
  by (auto simp: ladder_ok_def list_all_iff)

lemma side_lt1:
  assumes "ladder_ok L"
  shows "list_all (\<lambda>lv. 1 < length lv)
           (case raw of None \<Rightarrow> L | Some r \<Rightarrow> processDepthData pf m r isBids)"
proof (cases raw)
  case None
  then show ?thesis using ladder_ok_lt1[OF assms] by simp
next
  case (Some r)
  then show ?thesis using processDepthData_levels[of _ pf m r isBids] by (simp add: list_all_iff)
qed

lemma reachable_inv:
  assumes "reachable pf ob"
  shows "ladder_ok (bids ob) \<and> ladder_ok (asks ob) \<and> jge (lastUpdateId ob) (Fin 0) \<and>
         totalBidVolume ob = volume (bids ob) \<and> totalAskVolume ob = volume (asks ob)"
  using assms
proof (induction rule: reachable.induct)
  case (reach_new opt)
  then show ?case
    by (simp add: OrderBook_new_def ladder_ok_Nil volume_def jge_def jle_def)
next
  case (reach_update ob data)
  show ?case
  proof (cases data)
    case None
    then show ?thesis using reach_update.IH by (simp add: update_None)
  next
    case (Some d)
    have b: "ladder_ok (bids (update pf (Some d) ob))"
      unfolding bids_update using reach_update.IH by (intro ladder_ok_update_side) simp
    have a: "ladder_ok (asks (update pf (Some d) ob))"
      unfolding asks_update using reach_update.IH by (intro ladder_ok_update_side) simp
    have i: "jge (lastUpdateId (update pf (Some d) ob)) (Fin 0)"
      unfolding lastUpdateId_update using reach_update.IH
      by (cases "u_lastUpdateId d")
         (auto simp: jge_zero_iff jgt_def split: if_splits elim: jlt.elims)
    have vb: "totalBidVolume (update pf (Some d) ob) = volume (bids (update pf (Some d) ob))"
      unfolding totalBidVolume_update bids_update
      using side_lt1[of "bids ob"] reach_update.IH by (simp add: volume_attachTotals)
    have va: "totalAskVolume (update pf (Some d) ob) = volume (asks (update pf (Some d) ob))"
      unfolding totalAskVolume_update asks_update
      using side_lt1[of "asks ob"] reach_update.IH by (simp add: volume_attachTotals)
    show ?thesis using Some b a i vb va by simp
  qed
next
  case (reach_options ob opt)
  then show ?case by (cases opt) (simp_all add: updateOptions_def)
qed

lemma ladder_ok_cumulative:
  assumes "ladder_ok L"
  shows "map cumulative L = map cumulative (attachTotals (Fin 0) (map (take 2) L))"
proof -
  have "map cumulative L = map cumulative (map (take 3) L)"
    by (simp add: idx_take)
  also have "map (take 3) L = attachTotals (Fin 0) (map (take 2) L)"
    using assms by (simp add: ladder_ok_def)
  finally show ?thesis .
qed

lemma ladder_ok_two:
  assumes "ladder_ok L"
  shows "list_all (\<lambda>lv. length lv = 2 \<and> jgt (quantity lv) (Fin 0)) (map (take 2) L)"
  using assms by (auto simp: ladder_ok_def list_all_iff idx_take)

lemma ladder_ok_sorted:
  assumes "ladder_ok L"
  shows "sorted_wrt jle (map cumulative L)"
proof -
  have "sorted_wrt (\<lambda>x y. jle (cumulative x) (cumulative y)) (attachTotals (Fin 0) (map (take 2) L))"
    using attachTotals_mono[OF ladder_ok_two[OF assms], of "Fin 0"]
    by (simp add: jge_def jle_def)
  then have "sorted_wrt jle (map cumulative (attachTotals (Fin 0) (map (take 2) L)))"
    by (simp add: sorted_wrt_map)
  then show ?thesis using ladder_ok_cumulative[OF assms] by simp
qed

lemma ladder_ok_adjacent:
  assumes "ladder_ok L" "i + 1 < length L"
  shows "jle (cumulative (L ! i)) (cumulative (L ! (i + 1)))"
proof -
  have "jle (map cumulative L ! i) (map cumulative L ! (i + 1))"
    using sorted_wrt_nth_less[OF ladder_ok_sorted[OF assms(1)], of i "i + 1"] assms(2) by simp
  then show ?thesis using assms(2) by simp
qed

lemma ladder_ok_last:
  assumes "ladder_ok L" "L \<noteq> []"
  shows "cumulative (last L) = foldl jadd (Fin 0) (map quantity L)"
proof -
  let ?K = "map (take 2) L"
  have K: "list_all (\<lambda>lv. length lv = 2) ?K" "?K \<noteq> []"
    using ladder_ok_two[OF assms(1)] assms(2) by (simp_all add: list_all_iff)
  have "cumulative (last L) = last (map cumulative L)"
    using assms(2) by (simp add: last_map)
  also have "\<dots> = last (map cumulative (attachTotals (Fin 0) ?K))"
    using ladder_ok_cumulative[OF assms(1)] by simp
  also have "\<dots> = cumulative (last (attachTotals (Fin 0) ?K))"
    using K(2) by (simp add: last_map attachTotals_Nil_iff)
  also have "\<dots> = foldl jadd (Fin 0) (map quantity ?K)"
    using attachTotals_last[OF K] .
  also have "map quantity ?K = map quantity L"
    using ladder_ok_lt1[OF assms(1)] by (simp add: idx_take)
  finally show ?thesis .
qed

lemma jlt_irrefl: "\<not> jlt x x"
  by (cases x) simp_all

lemma update_Some_eq:
  "update pf (Some d) ob =
     calculateStats
       (ob\<lparr> lastUpdateId := lastUpdateId (update pf (Some d) ob),
            bids := (case u_bids d of None \<Rightarrow> bids ob
                     | Some b \<Rightarrow> processDepthData pf (maxRows ob) b True),
            asks := (case u_asks d of None \<Rightarrow> asks ob
                     | Some a \<Rightarrow> processDepthData pf (maxRows ob) a False) \<rparr>)"
  by (simp add: update_def calculateStats_def Let_def split: option.splits prod.splits)

lemma calculateStats_cong:
  "bids s = bids t \<Longrightarrow> asks s = asks t \<Longrightarrow>
   bids (calculateStats s) = bids (calculateStats t) \<and>
   asks (calculateStats s) = asks (calculateStats t) \<and>
   spreadValue (calculateStats s) = spreadValue (calculateStats t) \<and>
   spreadPercent (calculateStats s) = spreadPercent (calculateStats t) \<and>
   totalBidVolume (calculateStats s) = totalBidVolume (calculateStats t) \<and>
   totalAskVolume (calculateStats s) = totalAskVolume (calculateStats t)"
  by (simp add: calculateStats_def Let_def split: prod.splits)

subsection \<open>The examples, evaluated\<close>

lemmas eval_defs =
  update_def calculateStats_def processDepthData_def processLevel_def array_sort_def
  array_slice0_def depthCompare_def volume_def OrderBook_new_def updateOptions_def
  pair_def elem_def getprop_def js_or_def idx_def jgt_def jsub_def Let_def

lemma snapshot_state:
  "update pf (Some snapshot_ex) (OrderBook_new None) =
     \<lparr> maxRows = 15,
       bids = [[Fin 100, Fin 1, Fin 1], [Fin 99, Fin 2, Fin 3]],
       asks = [[Fin 101, Fin 1, Fin 1], [Fin 102, Fin 2, Fin 3]],
       lastUpdateId = Fin 0, spreadValue = Fin 1, spreadPercent = Fin (100 / 101),
       totalBidVolume = Fin 3, totalAskVolume = Fin 3 \<rparr>"
  by (simp add: snapshot_ex_def eval_defs)

lemma three_bids_state:
  "update pf (Some three_bids_ex) (OrderBook_new None) =
     \<lparr> maxRows = 15,
       bids = [[Fin 3, Fin 1, Fin 1], [Fin 2, Fin 1, Fin 2], [Fin 1, Fin 1, Fin 3]],
       asks = [],
       lastUpdateId = Fin 3, spreadValue = Fin 0, spreadPercent = Fin 0,
       totalBidVolume = Fin 3, totalAskVolume = Fin 0 \<rparr>"
  by (simp add: three_bids_ex_def eval_defs)

lemma malformed_state:
  "update pf (Some malformed_ex) (OrderBook_new None) =
     \<lparr> maxRows = 15,
       bids = [[NaN, Fin 1, Fin 1]],
       asks = [[Fin 7, PosInf, PosInf]],
       lastUpdateId = Fin 0, spreadValue = NaN, spreadPercent = NaN,
       totalBidVolume = Fin 1, totalAskVolume = PosInf \<rparr>"
  by (simp add: malformed_ex_def eval_defs)

lemma tie_state:
  "bids (update pf (Some tie_ex) (OrderBook_new None)) =
     [[Fin 3, Fin 1, Fin 1], [Fin 2, Fin 1, Fin 2], [Fin 2, Fin 5, Fin 7]]"
  by (simp add: tie_ex_def eval_defs)

lemma nan_price_state:
  "bids (update pf (Some nan_price_ex) (OrderBook_new None)) =
     [[NaN, Fin 1, Fin 1], [Fin 5, Fin 1, Fin 2]]"
  by (simp add: nan_price_ex_def eval_defs)

subsection \<open>Statistics and built sides\<close>

lemma stats_calculateStats:
  "spreadValue (calculateStats t) =
     (if asks t \<noteq> [] \<and> bids t \<noteq> [] then jsub (price (hd (asks t))) (price (hd (bids t)))
      else Fin 0) \<and>
   spreadPercent (calculateStats t) =
     (if asks t \<noteq> [] \<and> bids t \<noteq> [] then
        jmul (jdiv (jsub (price (hd (asks t))) (price (hd (bids t)))) (price (hd (asks t))))
          (Fin 100)
      else Fin 0) \<and>
   bids (calculateStats t) = attachTotals (Fin 0) (bids t) \<and>
   asks (calculateStats t) = attachTotals (Fin 0) (asks t)"
  by (simp add: calculateStats_def Let_def hd_conv_nth split: prod.splits)

lemma price_hd_attachTotals:
  "L \<noteq> [] \<Longrightarrow> list_all (\<lambda>lv. 1 < length lv) L \<Longrightarrow>
     price (hd (attachTotals a L)) = price (hd L)"
  by (cases L) (auto simp: Let_def idx_def nth_append)

lemma attachTotals_level:
  assumes "lv \<in> set (attachTotals a L)"
  shows "\<exists>l c. l \<in> set L \<and> lv = l @ [c]"
  using assms
proof (induction L arbitrary: a)
  case Nil
  then show ?case by simp
next
  case (Cons x L)
  then show ?case by (fastforce simp: Let_def)
qed

lemma built_side_levels:
  assumes "lv \<in> set (attachTotals a (processDepthData pf m b isBids))"
  shows "jgt (quantity lv) (Fin 0) \<and> length lv = 3"
proof -
  obtain l c where l: "l \<in> set (processDepthData pf m b isBids)" and lv: "lv = l @ [c]"
    using attachTotals_level[OF assms] by blast
  have "length l = 2" "jgt (quantity l) (Fin 0)"
    using processDepthData_levels[OF l] by simp_all
  then show ?thesis using lv by (simp add: idx_append_lt)
qed

lemma omitted_side_first_three_kept:
  assumes "reachable pf ob"
  shows "(u_asks d = None \<longrightarrow>
            map (take 3) (asks (update pf (Some d) ob)) = map (take 3) (asks ob)) \<and>
         (u_bids d = None \<longrightarrow>
            map (take 3) (bids (update pf (Some d) ob)) = map (take 3) (bids ob))"
proof -
  have "list_all (\<lambda>lv. 3 \<le> length lv) (bids ob)" "list_all (\<lambda>lv. 3 \<le> length lv) (asks ob)"
    using reachable_inv[OF assms] by (simp_all add: ladder_ok_def list_all_iff)
  then show ?thesis
    by (simp add: bids_update asks_update map_take_attachTotals)
qed

lemma length_processDepthData:
  "0 \<le> m \<Longrightarrow> int (length (processDepthData pf m b isBids)) \<le> m"
  by (cases b) (simp_all add: processDepthData_def array_slice0_def Let_def)

subsection \<open>Order of a built ladder\<close>

lemma jge_trans: "jge x y \<Longrightarrow> jge y z \<Longrightarrow> jge x z"
  unfolding jge_def by (rule jle_trans)

lemma built_ladder_sorted:
  assumes nn: "\<forall>item \<in> set items. jgt (quantity (processLevel pf item)) (Fin 0) \<longrightarrow>
                 price (processLevel pf item) \<noteq> NaN"
  shows "sorted_wrt (\<lambda>p q. if isBids then jge p q else jle p q)
           (map price (attachTotals a (processDepthData pf m (RawArray items) isBids)))"
proof -
  define F where "F = filter (\<lambda>lv. jgt (quantity lv) (Fin 0)) (map (processLevel pf) items)"
  define S where "S = array_sort (depthCompare isBids) F"
  define le where "le = (\<lambda>x y. if isBids then jge (price x) (price y) else jle (price x) (price y))"
  have F_nn: "\<And>x. x \<in> set F \<Longrightarrow> price x \<noteq> NaN"
    using nn by (auto simp: F_def)
  have tot: "\<And>x y. x \<in> set F \<Longrightarrow> y \<in> set F \<Longrightarrow> le x y \<or> le y x"
    using F_nn jle_total by (auto simp: le_def jge_def)
  have tr: "\<And>x y z. le x y \<Longrightarrow> le y z \<Longrightarrow> le x z"
    unfolding le_def by (auto intro: jle_trans jge_trans)
  have cmp: "\<And>x y. x \<in> set F \<Longrightarrow> y \<in> set F \<Longrightarrow>
               (\<not> jgt (depthCompare isBids x y) (Fin 0)) = le x y"
    using F_nn by (simp add: le_def depthCompare_def not_jgt_sub_desc not_jgt_sub_asc jge_def)
  have "sorted_wrt le S"
    unfolding S_def using tot tr cmp by (rule sorted_array_sort)
  moreover obtain k where k: "array_slice0 m S = take k S"
    using array_slice0_take by blast
  ultimately have sl: "sorted_wrt le (array_slice0 m S)"
    by simp
  have built: "processDepthData pf m (RawArray items) isBids = array_slice0 m S"
    by (simp add: processDepthData_RawArray S_def F_def)
  have "list_all (\<lambda>lv. 0 < length lv) (array_slice0 m S)"
    using processDepthData_levels[of _ pf m "RawArray items" isBids]
    by (fastforce simp: built list_all_iff)
  then have "map price (attachTotals a (array_slice0 m S)) = map price (array_slice0 m S)"
    by (rule map_idx_attachTotals)
  moreover have "sorted_wrt (\<lambda>p q. if isBids then jge p q else jle p q)
                   (map price (array_slice0 m S))"
    using sl by (simp add: sorted_wrt_map le_def)
  ultimately show ?thesis by (simp add: built)
qed

lemma built_ladder_stable:
  "prefix (filter (\<lambda>lv. price lv = p)
             (map butlast (attachTotals a (processDepthData pf m (RawArray items) isBids))))
          (filter (\<lambda>lv. price lv = p)
             (filter (\<lambda>lv. jgt (quantity lv) (Fin 0)) (map (processLevel pf) items)))"
proof -
  define F where "F = filter (\<lambda>lv. jgt (quantity lv) (Fin 0)) (map (processLevel pf) items)"
  define S where "S = array_sort (depthCompare isBids) F"
  have eq: "\<And>x y. price y = price x \<Longrightarrow> \<not> jgt (depthCompare isBids x y) (Fin 0)"
    by (simp add: depthCompare_def not_jgt_sub_same)
  have st: "filter (\<lambda>lv. price lv = p) S = filter (\<lambda>lv. price lv = p) F"
    unfolding S_def using eq by (rule filter_array_sort_stable)
  obtain k where k: "array_slice0 m S = take k S"
    using array_slice0_take by blast
  have "prefix (filter (\<lambda>lv. price lv = p) (array_slice0 m S)) (filter (\<lambda>lv. price lv = p) S)"
    unfolding k by (intro filter_mono_prefix take_is_prefix)
  then have pre: "prefix (filter (\<lambda>lv. price lv = p) (array_slice0 m S))
                    (filter (\<lambda>lv. price lv = p) F)"
    by (simp only: st)
  show ?thesis
    unfolding map_butlast_attachTotals processDepthData_RawArray F_def[symmetric]
      S_def[symmetric]
    by (rule pre)
qed

lemma adjacent_of_sorted_map:
  assumes "sorted_wrt R (map f L)" and "i + 1 < length L"
  shows "R (f (L ! i)) (f (L ! (i + 1)))"
  using sorted_wrt_nth_less[OF assms(1), of i "i + 1"] assms(2) by simp

subsection \<open>The trade history\<close>

lemma jlt_asym: "jlt x y \<Longrightarrow> \<not> jlt y x"
  by (cases x; cases y) auto

lemma first_trade_state:
  "addTrade pf (Some (trade_at 100)) TradeHistory_new =
     \<lparr> trades = [\<lparr> t_price = Fin 100, t_quantity = NaN, t_amount = NaN \<rparr>],
       lastPrice = None, currentPage = 1, tableBody = True,
       th_maxRows = 50, priceChangeColors = True, autoUpdate = True \<rparr>"
  by (simp add: addTrade_def applyFilters_def TradeHistory_new_def trade_at_def processTrade_def
      getTradePrice_def getTradeQuantity_def toNumber_def js_or_def getprop_def Let_def)

lemma second_trade_state:
  "addTrade pf (Some (trade_at 105)) (addTrade pf (Some (trade_at 100)) TradeHistory_new) =
     \<lparr> trades = [\<lparr> t_price = Fin 105, t_quantity = NaN, t_amount = NaN \<rparr>,
                 \<lparr> t_price = Fin 100, t_quantity = NaN, t_amount = NaN \<rparr>],
       lastPrice = Some (Fin 100), currentPage = 1, tableBody = True,
       th_maxRows = 50, priceChangeColors = True, autoUpdate = True \<rparr>"
  unfolding first_trade_state
  by (simp add: addTrade_def applyFilters_def trade_at_def processTrade_def
      getTradePrice_def getTradeQuantity_def toNumber_def js_or_def getprop_def Let_def)

lemma price_trade_at: "getTradePrice pf (trade_at p) = (if p = 0 then NaN else Fin p)"
  by (simp add: trade_at_def getTradePrice_def toNumber_def js_or_def getprop_def)

section \<open>The claims\<close>

text \<open>
  C1 (as the code has it): every level of a ladder that an update builds from a raw side
  has three components and a quantity greater than zero, hence a quantity that is a number
  and neither zero nor negative. The price is not checked, and an infinite quantity is
  greater than zero.
\<close>

theorem built_levels_positive_quantity:
  "(\<forall>b. u_bids d = Some b \<longrightarrow>
      (\<forall>lv \<in> set (bids (update pf (Some d) ob)).
         jgt (quantity lv) (Fin 0) \<and> quantity lv \<noteq> NaN \<and> length lv = 3)) \<and>
   (\<forall>a. u_asks d = Some a \<longrightarrow>
      (\<forall>lv \<in> set (asks (update pf (Some d) ob)).
         jgt (quantity lv) (Fin 0) \<and> quantity lv \<noteq> NaN \<and> length lv = 3))"
proof -
  have nan: "\<And>q. jgt q (Fin 0) \<Longrightarrow> q \<noteq> NaN"
    by (auto simp: jgt_zero_iff)
  show ?thesis
    using built_side_levels nan by (auto simp: bids_update asks_update)
qed

theorem built_levels_positive_quantity_witness:
  "u_bids snapshot_ex = Some (RawArray [pair 100 1, pair 99 2]) \<and>
   [Fin 99, Fin 2, Fin 3] \<in> set (bids (update pf_nan (Some snapshot_ex) (OrderBook_new None))) \<and>
   jgt (quantity [Fin 99, Fin 2, Fin 3]) (Fin 0)"
proof -
  have h: "u_bids snapshot_ex = Some (RawArray [pair 100 1, pair 99 2])"
    by (simp add: snapshot_ex_def)
  have m: "[Fin 99, Fin 2, Fin 3] \<in>
             set (bids (update pf_nan (Some snapshot_ex) (OrderBook_new None)))"
    by (simp add: snapshot_state)
  have "jgt (quantity [Fin 99, Fin 2, Fin 3]) (Fin 0)"
    using built_levels_positive_quantity[of snapshot_ex pf_nan "OrderBook_new None"] h m
    by blast
  then show ?thesis using h m by simp
qed

text \<open>
  C1 as stated fails: from \<^verbatim>\<open>{bids: [{q: 1}], asks: [[7, Infinity]]}\<close> the bid ladder
  holds a level whose price is \<^verbatim>\<open>NaN\<close> and the ask ladder a level whose quantity is
  infinite.
\<close>

theorem unfiltered_level_counterexample:
  "bids (update pf_nan (Some malformed_ex) (OrderBook_new None)) = [[NaN, Fin 1, Fin 1]] \<and>
   price (hd (bids (update pf_nan (Some malformed_ex) (OrderBook_new None)))) = NaN \<and>
   asks (update pf_nan (Some malformed_ex) (OrderBook_new None)) = [[Fin 7, PosInf, PosInf]] \<and>
   quantity (hd (asks (update pf_nan (Some malformed_ex) (OrderBook_new None)))) = PosInf"
  by (simp add: malformed_state idx_def)

text \<open>
  C2 (as the code has it): after an update of a reachable order book, the spread is the
  best ask price minus the best bid price when both ladders are non-empty and 0 otherwise,
  and the spread percentage is the spread divided by the best ask price, times 100, when
  both ladders are non-empty and 0 otherwise; there is no test for a best ask price of
  zero. For bids \<^verbatim>\<open>[[100,1],[99,2]]\<close> and asks \<^verbatim>\<open>[[101,1],[102,2]]\<close> the spread is 1 and
  the percentage 100/101, within 0.001 of 0.990.
\<close>

theorem spread_after_update:
  assumes "reachable pf ob"
  shows "(let ob' = update pf (Some d) ob; B = bids ob'; A = asks ob'
          in spreadValue ob' =
               (if A \<noteq> [] \<and> B \<noteq> [] then jsub (price (hd A)) (price (hd B)) else Fin 0) \<and>
             spreadPercent ob' =
               (if A \<noteq> [] \<and> B \<noteq> [] then
                  jmul (jdiv (spreadValue ob') (price (hd A))) (Fin 100)
                else Fin 0)) \<and>
         spreadValue (update pf (Some snapshot_ex) (OrderBook_new None)) = Fin 1 \<and>
         spreadPercent (update pf (Some snapshot_ex) (OrderBook_new None)) = Fin (100 / 101) \<and>
         \<bar>100 / 101 - 990 / 1000\<bar> < (1 / 1000 :: rat)"
proof -
  define Sb where "Sb = (case u_bids d of None \<Rightarrow> bids ob
                         | Some b \<Rightarrow> processDepthData pf (maxRows ob) b True)"
  define Sa where "Sa = (case u_asks d of None \<Rightarrow> asks ob
                         | Some a \<Rightarrow> processDepthData pf (maxRows ob) a False)"
  define t where "t = ob\<lparr>lastUpdateId := lastUpdateId (update pf (Some d) ob),
                          bids := Sb, asks := Sa\<rparr>"
  have upd: "update pf (Some d) ob = calculateStats t"
    unfolding t_def Sb_def Sa_def by (rule update_Some_eq)
  have inv: "ladder_ok (bids ob)" "ladder_ok (asks ob)"
    using reachable_inv[OF assms] by simp_all
  have lb: "list_all (\<lambda>lv. 1 < length lv) Sb"
    unfolding Sb_def by (rule side_lt1[OF inv(1)])
  have la: "list_all (\<lambda>lv. 1 < length lv) Sa"
    unfolding Sa_def by (rule side_lt1[OF inv(2)])
  have st: "bids t = Sb" "asks t = Sa" by (simp_all add: t_def)
  have B: "bids (update pf (Some d) ob) = attachTotals (Fin 0) Sb"
    and A: "asks (update pf (Some d) ob) = attachTotals (Fin 0) Sa"
    unfolding upd using stats_calculateStats[of t] st by simp_all
  have pb: "Sb \<noteq> [] \<Longrightarrow> price (hd (attachTotals (Fin 0) Sb)) = price (hd Sb)"
    using price_hd_attachTotals[OF _ lb] by simp
  have pa: "Sa \<noteq> [] \<Longrightarrow> price (hd (attachTotals (Fin 0) Sa)) = price (hd Sa)"
    using price_hd_attachTotals[OF _ la] by simp
  have sv: "spreadValue (update pf (Some d) ob) =
              (if Sa \<noteq> [] \<and> Sb \<noteq> [] then jsub (price (hd Sa)) (price (hd Sb)) else Fin 0)"
    unfolding upd using stats_calculateStats[of t] st by simp
  have sp: "spreadPercent (update pf (Some d) ob) =
              (if Sa \<noteq> [] \<and> Sb \<noteq> [] then
                 jmul (jdiv (jsub (price (hd Sa)) (price (hd Sb))) (price (hd Sa))) (Fin 100)
               else Fin 0)"
    unfolding upd using stats_calculateStats[of t] st by simp
  have general:
    "let ob' = update pf (Some d) ob; B = bids ob'; A = asks ob'
     in spreadValue ob' =
          (if A \<noteq> [] \<and> B \<noteq> [] then jsub (price (hd A)) (price (hd B)) else Fin 0) \<and>
        spreadPercent ob' =
          (if A \<noteq> [] \<and> B \<noteq> [] then
             jmul (jdiv (spreadValue ob') (price (hd A))) (Fin 100)
           else Fin 0)"
    unfolding Let_def A B sv sp using pa pb by (simp add: attachTotals_Nil_iff)
  show ?thesis
    using general by (simp add: snapshot_state)
qed

theorem spread_after_update_witness:
  "reachable pf_nan (OrderBook_new None) \<and>
   spreadValue (update pf_nan (Some snapshot_ex) (OrderBook_new None)) = Fin 1 \<and>
   spreadPercent (update pf_nan (Some snapshot_ex) (OrderBook_new None)) =
     jmul (jdiv (Fin 1) (Fin 101)) (Fin 100)"
  using spread_after_update[where pf = pf_nan and ob = "OrderBook_new None" and d = snapshot_ex,
      OF reach_new]
  by (simp add: reach_new snapshot_state)

text \<open>
  C2 as stated fails: with a best ask price of zero
  (\<^verbatim>\<open>{bids: [[1,1]], asks: [[0,1]]}\<close>) the spread percentage is \<^verbatim>\<open>-Infinity\<close>, not 0.
\<close>

theorem spread_percent_zero_ask_counterexample:
  "price (hd (asks (update pf_nan (Some zero_ask_ex) (OrderBook_new None)))) = Fin 0 \<and>
   spreadPercent (update pf_nan (Some zero_ask_ex) (OrderBook_new None)) = NegInf \<and>
   spreadPercent (update pf_nan (Some zero_ask_ex) (OrderBook_new None)) \<noteq> Fin 0"
  by (simp add: zero_ask_ex_def eval_defs)

text \<open>
  C3 on the code: after the snapshot \<^verbatim>\<open>{bids: [[100,1],[99,2]], asks: [[101,1],[102,2]]}\<close>
  the update \<^verbatim>\<open>{bids: [[50,1]]}\<close>, which has no asks, does not leave the stored ask ladder
  as it was: \<^verbatim>\<open>_calculateStats\<close> appends the running total to every ask level once
  more.
\<close>

theorem omitted_side_levels_grow:
  "asks (update pf_nan (Some snapshot_ex) (OrderBook_new None)) =
     [[Fin 101, Fin 1, Fin 1], [Fin 102, Fin 2, Fin 3]] \<and>
   asks (update pf_nan (Some bids_only_ex)
          (update pf_nan (Some snapshot_ex) (OrderBook_new None))) =
     [[Fin 101, Fin 1, Fin 1, Fin 1], [Fin 102, Fin 2, Fin 3, Fin 3]] \<and>
   asks (update pf_nan (Some bids_only_ex)
          (update pf_nan (Some snapshot_ex) (OrderBook_new None))) \<noteq>
   asks (update pf_nan (Some snapshot_ex) (OrderBook_new None))"
  unfolding snapshot_state by (simp add: bids_only_ex_def eval_defs)

text \<open>
  C4 (as the code has it): \<^verbatim>\<open>addTrade\<close> sets \<^verbatim>\<open>lastPrice\<close> to the price of the
  trade that was newest before. It marks the new trade only when \<^verbatim>\<open>autoUpdate\<close> is on
  (and there is a table body); it then marks it \<^verbatim>\<open>price-up\<close> when its price is strictly
  greater than that price, \<^verbatim>\<open>price-down\<close> when strictly less, and with the empty class
  when the prices are equal or incomparable, when there was no trade before, or when
  \<^verbatim>\<open>priceChangeColors\<close> is off. With \<^verbatim>\<open>autoUpdate\<close> off it gives the new trade no
  mark at all. With \<^verbatim>\<open>maxRows\<close> at least 1 the new trade is the newest afterwards, so
  its price is the one the next trade is compared with.
\<close>

theorem trade_direction:
  "let th' = addTrade pf (Some t) th; p = getTradePrice pf t; c = newTradeClass pf t th
   in lastPrice th' = (if trades th = [] then None else Some (t_price (hd (trades th)))) \<and>
      (\<not> (autoUpdate th \<and> tableBody th) \<longrightarrow> c = None) \<and>
      (autoUpdate th \<and> tableBody th \<longrightarrow>
         (trades th = [] \<longrightarrow> c = Some []) \<and>
         (\<not> priceChangeColors th \<longrightarrow> c = Some []) \<and>
         (trades th \<noteq> [] \<and> priceChangeColors th \<and> jgt p (t_price (hd (trades th))) \<longrightarrow>
            c = Some ''price-up'') \<and>
         (trades th \<noteq> [] \<and> priceChangeColors th \<and> jlt p (t_price (hd (trades th))) \<longrightarrow>
            c = Some ''price-down'') \<and>
         (trades th \<noteq> [] \<and> \<not> jgt p (t_price (hd (trades th))) \<and>
            \<not> jlt p (t_price (hd (trades th))) \<longrightarrow> c = Some [])) \<and>
      (1 \<le> th_maxRows th \<longrightarrow> trades th' \<noteq> [] \<and> t_price (hd (trades th')) = p)"
proof -
  have lp: "lastPrice (addTrade pf (Some t) th) =
              (if trades th = [] then None else Some (t_price (hd (trades th))))"
    by (simp add: addTrade_def applyFilters_def Let_def hd_conv_nth)
  have keepopts: "priceChangeColors (addTrade pf (Some t) th) = priceChangeColors th"
    "autoUpdate (addTrade pf (Some t) th) = autoUpdate th"
    "tableBody (addTrade pf (Some t) th) = tableBody th"
    "currentPage (addTrade pf (Some t) th) = 1"
    by (simp_all add: addTrade_def applyFilters_def Let_def)
  have tp: "t_price (processTrade pf t) = getTradePrice pf t"
    by (simp add: processTrade_def Let_def)
  have off: "\<not> (autoUpdate th \<and> tableBody th) \<Longrightarrow> newTradeClass pf t th = None"
    by (auto simp: newTradeClass_def renderNewTrade_def keepopts Let_def)
  have c: "autoUpdate th \<and> tableBody th \<Longrightarrow> newTradeClass pf t th =
            Some (if trades th = [] then []
             else if priceChangeColors th then
               (if jgt (getTradePrice pf t) (t_price (hd (trades th))) then ''price-up''
                else if jlt (getTradePrice pf t) (t_price (hd (trades th))) then ''price-down''
                else [])
             else [])"
    by (simp add: newTradeClass_def renderNewTrade_def priceChangeClass_def lp keepopts tp
        Let_def)
  have asym: "jgt (getTradePrice pf t) (t_price (hd (trades th))) \<Longrightarrow>
              \<not> jlt (getTradePrice pf t) (t_price (hd (trades th)))"
    unfolding jgt_def by (rule jlt_asym)
  have keep: "1 \<le> th_maxRows th \<Longrightarrow>
              trades (addTrade pf (Some t) th) \<noteq> [] \<and>
              t_price (hd (trades (addTrade pf (Some t) th))) = getTradePrice pf t"
    by (cases "trades th") (auto simp: addTrade_def applyFilters_def Let_def tp)
  show ?thesis
    unfolding Let_def using lp off c asym keep by auto
qed

theorem trade_direction_witness:
  "autoUpdate (addTrade pf_nan (Some (trade_at 100)) TradeHistory_new) \<and>
   tableBody (addTrade pf_nan (Some (trade_at 100)) TradeHistory_new) \<and>
   trades (addTrade pf_nan (Some (trade_at 100)) TradeHistory_new) \<noteq> [] \<and>
   priceChangeColors (addTrade pf_nan (Some (trade_at 100)) TradeHistory_new) \<and>
   jgt (getTradePrice pf_nan (trade_at 105))
     (t_price (hd (trades (addTrade pf_nan (Some (trade_at 100)) TradeHistory_new)))) \<and>
   1 \<le> th_maxRows (addTrade pf_nan (Some (trade_at 100)) TradeHistory_new) \<and>
   newTradeClass pf_nan (trade_at 105)
     (addTrade pf_nan (Some (trade_at 100)) TradeHistory_new) = Some ''price-up'' \<and>
   lastPrice (addTrade pf_nan (Some (trade_at 105))
     (addTrade pf_nan (Some (trade_at 100)) TradeHistory_new)) = Some (Fin 100) \<and>
   \<not> (autoUpdate TradeHistory_manual \<and> tableBody TradeHistory_manual) \<and>
   newTradeClass pf_nan (trade_at 105)
     (addTrade pf_nan (Some (trade_at 100)) TradeHistory_manual) = None"
proof -
  have manual: "\<not> autoUpdate (addTrade pf_nan (Some (trade_at 100)) TradeHistory_manual)"
    by (simp add: addTrade_def applyFilters_def TradeHistory_manual_def Let_def)
  have "newTradeClass pf_nan (trade_at 105)
          (addTrade pf_nan (Some (trade_at 100)) TradeHistory_manual) = None"
    using trade_direction[of pf_nan "trade_at 105"
        "addTrade pf_nan (Some (trade_at 100)) TradeHistory_manual"] manual
    unfolding Let_def by blast
  then show ?thesis
    using trade_direction[of pf_nan "trade_at 105"
        "addTrade pf_nan (Some (trade_at 100)) TradeHistory_new"]
    unfolding Let_def
    by (simp add: first_trade_state price_trade_at jgt_def TradeHistory_manual_def)
qed

text \<open>
  C4 as stated fails: with the default options, trades at 100, 105 and 105 are marked with
  the empty class, \<^verbatim>\<open>price-up\<close> and the empty class; the mark of the third is not the
  one of the second.
\<close>

theorem equal_price_direction_counterexample:
  "newTradeClass pf_nan (trade_at 100) TradeHistory_new = Some [] \<and>
   newTradeClass pf_nan (trade_at 105)
     (addTrade pf_nan (Some (trade_at 100)) TradeHistory_new) = Some ''price-up'' \<and>
   newTradeClass pf_nan (trade_at 105)
     (addTrade pf_nan (Some (trade_at 105))
        (addTrade pf_nan (Some (trade_at 100)) TradeHistory_new)) = Some [] \<and>
   newTradeClass pf_nan (trade_at 105)
     (addTrade pf_nan (Some (trade_at 105))
        (addTrade pf_nan (Some (trade_at 100)) TradeHistory_new)) \<noteq>
   newTradeClass pf_nan (trade_at 105)
     (addTrade pf_nan (Some (trade_at 100)) TradeHistory_new)"
  unfolding newTradeClass_def second_trade_state first_trade_state
  by (simp add: addTrade_def applyFilters_def renderNewTrade_def TradeHistory_new_def trade_at_def
      processTrade_def priceChangeClass_def getTradePrice_def getTradeQuantity_def toNumber_def
      js_or_def getprop_def Let_def jgt_def)

text \<open>
  C5 (as the code has it): \<^verbatim>\<open>updateOptions\<close> stores \<^verbatim>\<open>maxRows\<close> as given, and
  for \<^verbatim>\<open>maxRows\<close> at least 0 a ladder built by a later update has at most
  \<^verbatim>\<open>maxRows\<close> levels.
\<close>

theorem maxRows_not_coerced:
  "maxRows (updateOptions (Some m) ob) = m \<and>
   (\<forall>b. u_bids d = Some b \<longrightarrow> 0 \<le> m \<longrightarrow>
      int (length (bids (update pf (Some d) (updateOptions (Some m) ob)))) \<le> m) \<and>
   (\<forall>a. u_asks d = Some a \<longrightarrow> 0 \<le> m \<longrightarrow>
      int (length (asks (update pf (Some d) (updateOptions (Some m) ob)))) \<le> m)"
  by (simp add: bids_update asks_update length_attachTotals length_processDepthData
      updateOptions_def)

theorem maxRows_not_coerced_witness:
  "maxRows (updateOptions (Some 2) (OrderBook_new None)) = 2 \<and>
   u_bids three_bids_ex = Some (RawArray [pair 3 1, pair 2 1, pair 1 1]) \<and> (0::int) \<le> 2 \<and>
   int (length (bids (update pf_nan (Some three_bids_ex)
      (updateOptions (Some 2) (OrderBook_new None))))) \<le> 2"
  using maxRows_not_coerced[of 2 "OrderBook_new None" three_bids_ex pf_nan]
  by (simp add: three_bids_ex_def)

text \<open>
  C5 as stated fails: \<^verbatim>\<open>maxRows = -1\<close> stays -1 and a ladder built from three levels
  then has two, more than \<open>max 1 (-1)\<close>; \<^verbatim>\<open>maxRows = 0\<close> stays 0 and the ladder is
  empty.
\<close>

theorem nonpositive_maxRows_counterexample:
  "maxRows (updateOptions (Some (- 1)) (OrderBook_new None)) = - 1 \<and>
   bids (update pf_nan (Some three_bids_ex) (updateOptions (Some (- 1)) (OrderBook_new None))) =
     [[Fin 3, Fin 1, Fin 1], [Fin 2, Fin 1, Fin 2]] \<and>
   \<not> int (length (bids (update pf_nan (Some three_bids_ex)
         (updateOptions (Some (- 1)) (OrderBook_new None))))) \<le> max 1 (- 1) \<and>
   maxRows (updateOptions (Some 0) (OrderBook_new None)) = 0 \<and>
   bids (update pf_nan (Some three_bids_ex) (updateOptions (Some 0) (OrderBook_new None))) = []"
  by (simp add: three_bids_ex_def eval_defs)

text \<open>
  C6: after an update of a reachable order book the last update id is not smaller than
  before; when the update carries an id (a number), the stored id is the maximum of the
  previous one and the incoming one; and whatever the id, a side that the update carries
  is rebuilt from its raw array.
\<close>

theorem lastUpdateId_max:
  assumes "reachable pf ob"
  shows "let ob' = update pf (Some d) ob
         in jge (lastUpdateId ob') (lastUpdateId ob) \<and>
            (\<forall>i. u_lastUpdateId d = Some i \<and> i \<noteq> NaN \<longrightarrow>
                 lastUpdateId ob' = jmax (lastUpdateId ob) i) \<and>
            (\<forall>b. u_bids d = Some b \<longrightarrow>
                 bids ob' = attachTotals (Fin 0) (processDepthData pf (maxRows ob) b True)) \<and>
            (\<forall>a. u_asks d = Some a \<longrightarrow>
                 asks ob' = attachTotals (Fin 0) (processDepthData pf (maxRows ob) a False))"
proof -
  have old: "jge (lastUpdateId ob) (Fin 0)"
    using reachable_inv[OF assms] by simp
  have g: "jge (lastUpdateId (update pf (Some d) ob)) (lastUpdateId ob)"
  proof (cases "u_lastUpdateId d")
    case None
    then show ?thesis
      using old by (auto simp: lastUpdateId_update jge_zero_iff jge_def jle_def)
  next
    case (Some i)
    then show ?thesis
      using old
      by (cases i; cases "lastUpdateId ob")
         (auto simp: lastUpdateId_update jgt_def jge_def jle_def)
  qed
  have m: "lastUpdateId (update pf (Some d) ob) = jmax (lastUpdateId ob) i"
    if "u_lastUpdateId d = Some i" and "i \<noteq> NaN" for i
    using old that
    by (cases i; cases "lastUpdateId ob")
       (auto simp: lastUpdateId_update jmax_def jgt_def jge_def jle_def)
  show ?thesis
    unfolding Let_def using m g by (simp add: bids_update asks_update)
qed

theorem lastUpdateId_max_witness:
  "reachable pf_nan (update pf_nan (Some three_bids_ex) (OrderBook_new None)) \<and>
   u_lastUpdateId older_ex = Some (Fin 2) \<and> Fin 2 \<noteq> NaN \<and>
   lastUpdateId (update pf_nan (Some three_bids_ex) (OrderBook_new None)) = Fin 3 \<and>
   lastUpdateId (update pf_nan (Some older_ex)
     (update pf_nan (Some three_bids_ex) (OrderBook_new None))) = Fin 3 \<and>
   bids (update pf_nan (Some older_ex)
     (update pf_nan (Some three_bids_ex) (OrderBook_new None))) = [[Fin 50, Fin 1, Fin 1]]"
proof -
  have r: "reachable pf_nan (update pf_nan (Some three_bids_ex) (OrderBook_new None))"
    by (rule reach_update[OF reach_new])
  have i: "u_lastUpdateId older_ex = Some (Fin 2)" by (simp add: older_ex_def)
  show ?thesis
    using r i lastUpdateId_max[OF r, of older_ex]
    by (simp add: three_bids_state older_ex_def jmax_def Let_def
        processDepthData_def processLevel_def array_sort_def array_slice0_def pair_def
        elem_def idx_def jgt_def)
qed

text \<open>
  C7 (as the code has it): when no raw level of positive quantity has a price that parses
  to \<^verbatim>\<open>NaN\<close>, the bid ladder built by an update is non-increasing by price and the ask
  ladder non-decreasing, and levels of equal price keep the order they had in the raw
  array (the levels of a price in the ladder, without their running totals, are the first
  of that price among the raw levels of positive quantity).
\<close>

theorem ladders_sorted_stable:
  "(\<forall>bs. u_bids d = Some (RawArray bs) \<longrightarrow>
      (\<forall>item \<in> set bs. jgt (quantity (processLevel pf item)) (Fin 0) \<longrightarrow>
          price (processLevel pf item) \<noteq> NaN) \<longrightarrow>
      (let B = bids (update pf (Some d) ob)
       in (\<forall>i. i + 1 < length B \<longrightarrow> jge (price (B ! i)) (price (B ! (i + 1)))) \<and>
          (\<forall>p. prefix (filter (\<lambda>lv. price lv = p) (map butlast B))
                 (filter (\<lambda>lv. price lv = p)
                    (filter (\<lambda>lv. jgt (quantity lv) (Fin 0)) (map (processLevel pf) bs)))))) \<and>
   (\<forall>as. u_asks d = Some (RawArray as) \<longrightarrow>
      (\<forall>item \<in> set as. jgt (quantity (processLevel pf item)) (Fin 0) \<longrightarrow>
          price (processLevel pf item) \<noteq> NaN) \<longrightarrow>
      (let A = asks (update pf (Some d) ob)
       in (\<forall>i. i + 1 < length A \<longrightarrow> jle (price (A ! i)) (price (A ! (i + 1)))) \<and>
          (\<forall>p. prefix (filter (\<lambda>lv. price lv = p) (map butlast A))
                 (filter (\<lambda>lv. price lv = p)
                    (filter (\<lambda>lv. jgt (quantity lv) (Fin 0)) (map (processLevel pf) as))))))"
proof (intro conjI allI impI)
  fix bs
  assume b: "u_bids d = Some (RawArray bs)"
    and nn: "\<forall>item \<in> set bs. jgt (quantity (processLevel pf item)) (Fin 0) \<longrightarrow>
               price (processLevel pf item) \<noteq> NaN"
  have B: "bids (update pf (Some d) ob) =
             attachTotals (Fin 0) (processDepthData pf (maxRows ob) (RawArray bs) True)"
    using b by (simp add: bids_update)
  have srt: "sorted_wrt (\<lambda>p q. jge p q) (map price (bids (update pf (Some d) ob)))"
    unfolding B using built_ladder_sorted[OF nn, of True] by simp
  show "let B = bids (update pf (Some d) ob)
        in (\<forall>i. i + 1 < length B \<longrightarrow> jge (price (B ! i)) (price (B ! (i + 1)))) \<and>
           (\<forall>p. prefix (filter (\<lambda>lv. price lv = p) (map butlast B))
                  (filter (\<lambda>lv. price lv = p)
                     (filter (\<lambda>lv. jgt (quantity lv) (Fin 0)) (map (processLevel pf) bs))))"
    unfolding Let_def
  proof (intro conjI allI impI)
    fix i assume "i + 1 < length (bids (update pf (Some d) ob))"
    then show "jge (price (bids (update pf (Some d) ob) ! i))
                 (price (bids (update pf (Some d) ob) ! (i + 1)))"
      using adjacent_of_sorted_map[OF srt] by simp
  next
    fix p
    show "prefix (filter (\<lambda>lv. price lv = p) (map butlast (bids (update pf (Some d) ob))))
            (filter (\<lambda>lv. price lv = p)
               (filter (\<lambda>lv. jgt (quantity lv) (Fin 0)) (map (processLevel pf) bs)))"
      unfolding B by (rule built_ladder_stable)
  qed
next
  fix as
  assume a: "u_asks d = Some (RawArray as)"
    and nn: "\<forall>item \<in> set as. jgt (quantity (processLevel pf item)) (Fin 0) \<longrightarrow>
               price (processLevel pf item) \<noteq> NaN"
  have A: "asks (update pf (Some d) ob) =
             attachTotals (Fin 0) (processDepthData pf (maxRows ob) (RawArray as) False)"
    using a by (simp add: asks_update)
  have srt: "sorted_wrt (\<lambda>p q. jle p q) (map price (asks (update pf (Some d) ob)))"
    unfolding A using built_ladder_sorted[OF nn, of False] by simp
  show "let A = asks (update pf (Some d) ob)
        in (\<forall>i. i + 1 < length A \<longrightarrow> jle (price (A ! i)) (price (A ! (i + 1)))) \<and>
           (\<forall>p. prefix (filter (\<lambda>lv. price lv = p) (map butlast A))
                  (filter (\<lambda>lv. price lv = p)
                     (filter (\<lambda>lv. jgt (quantity lv) (Fin 0)) (map (processLevel pf) as))))"
    unfolding Let_def
  proof (intro conjI allI impI)
    fix i assume "i + 1 < length (asks (update pf (Some d) ob))"
    then show "jle (price (asks (update pf (Some d) ob) ! i))
                 (price (asks (update pf (Some d) ob) ! (i + 1)))"
      using adjacent_of_sorted_map[OF srt] by simp
  next
    fix p
    show "prefix (filter (\<lambda>lv. price lv = p) (map butlast (asks (update pf (Some d) ob))))
            (filter (\<lambda>lv. price lv = p)
               (filter (\<lambda>lv. jgt (quantity lv) (Fin 0)) (map (processLevel pf) as)))"
      unfolding A by (rule built_ladder_stable)
  qed
qed

theorem ladders_sorted_stable_witness:
  "u_bids tie_ex = Some (RawArray [pair 2 1, pair 3 1, pair 2 5]) \<and>
   price (processLevel pf_nan (pair 2 1)) \<noteq> NaN \<and>
   price (processLevel pf_nan (pair 3 1)) \<noteq> NaN \<and>
   price (processLevel pf_nan (pair 2 5)) \<noteq> NaN \<and>
   jge (price (bids (update pf_nan (Some tie_ex) (OrderBook_new None)) ! 0))
       (price (bids (update pf_nan (Some tie_ex) (OrderBook_new None)) ! 1)) \<and>
   jge (price (bids (update pf_nan (Some tie_ex) (OrderBook_new None)) ! 1))
       (price (bids (update pf_nan (Some tie_ex) (OrderBook_new None)) ! 2)) \<and>
   prefix (filter (\<lambda>lv. price lv = Fin 2)
             (map butlast (bids (update pf_nan (Some tie_ex) (OrderBook_new None)))))
          [[Fin 2, Fin 1], [Fin 2, Fin 5]]"
proof -
  have h: "u_bids tie_ex = Some (RawArray [pair 2 1, pair 3 1, pair 2 5])"
    by (simp add: tie_ex_def)
  have nn: "\<forall>item \<in> set [pair 2 1, pair 3 1, pair 2 5].
              jgt (quantity (processLevel pf_nan item)) (Fin 0) \<longrightarrow>
              price (processLevel pf_nan item) \<noteq> NaN"
    by (simp add: processLevel_def pair_def elem_def idx_def)
  have len: "length (bids (update pf_nan (Some tie_ex) (OrderBook_new None))) = 3"
    by (simp add: tie_state)
  have c: "let B = bids (update pf_nan (Some tie_ex) (OrderBook_new None))
       in (\<forall>i. i + 1 < length B \<longrightarrow> jge (price (B ! i)) (price (B ! (i + 1)))) \<and>
          (\<forall>p. prefix (filter (\<lambda>lv. price lv = p) (map butlast B))
                 (filter (\<lambda>lv. price lv = p)
                    (filter (\<lambda>lv. jgt (quantity lv) (Fin 0))
                       (map (processLevel pf_nan) [pair 2 1, pair 3 1, pair 2 5]))))"
    using ladders_sorted_stable[of tie_ex pf_nan "OrderBook_new None"] h nn by blast
  have "0 + 1 < length (bids (update pf_nan (Some tie_ex) (OrderBook_new None))) \<longrightarrow>
        jge (price (bids (update pf_nan (Some tie_ex) (OrderBook_new None)) ! 0))
          (price (bids (update pf_nan (Some tie_ex) (OrderBook_new None)) ! (0 + 1)))"
    using c unfolding Let_def by blast
  then have s0: "jge (price (bids (update pf_nan (Some tie_ex) (OrderBook_new None)) ! 0))
       (price (bids (update pf_nan (Some tie_ex) (OrderBook_new None)) ! 1))"
    using len by simp
  show ?thesis
    using h s0 by (simp add: tie_state processLevel_def pair_def elem_def idx_def jge_def jle_def)
qed

text \<open>
  C7 as stated fails: from \<^verbatim>\<open>{bids: [{q: 1}, [5, 1]]}\<close> the bid ladder starts with a
  level whose price is \<^verbatim>\<open>NaN\<close>, which is not greater than or equal to 5.
\<close>

theorem nan_price_unsorted_counterexample:
  "bids (update pf_nan (Some nan_price_ex) (OrderBook_new None)) =
     [[NaN, Fin 1, Fin 1], [Fin 5, Fin 1, Fin 2]] \<and>
   \<not> jge (price (bids (update pf_nan (Some nan_price_ex) (OrderBook_new None)) ! 0))
          (price (bids (update pf_nan (Some nan_price_ex) (OrderBook_new None)) ! 1))"
  by (simp add: nan_price_state idx_def jge_def jle_def)

text \<open>
  C8: after an update of a reachable order book, in each ladder the cumulative values
  are non-decreasing, the cumulative value of the last level is the sum of the quantities
  of the ladder (added from the first level on), and the total volume of the side is that
  last cumulative value, or 0 for an empty ladder.
\<close>

theorem cumulative_after_update:
  assumes "reachable pf ob"
  shows "let ob' = update pf (Some d) ob; B = bids ob'; A = asks ob'
         in (\<forall>i. i + 1 < length B \<longrightarrow> jle (cumulative (B ! i)) (cumulative (B ! (i + 1)))) \<and>
            (\<forall>i. i + 1 < length A \<longrightarrow> jle (cumulative (A ! i)) (cumulative (A ! (i + 1)))) \<and>
            (B \<noteq> [] \<longrightarrow> cumulative (last B) = foldl jadd (Fin 0) (map quantity B)) \<and>
            (A \<noteq> [] \<longrightarrow> cumulative (last A) = foldl jadd (Fin 0) (map quantity A)) \<and>
            totalBidVolume ob' = (if B = [] then Fin 0 else cumulative (last B)) \<and>
            totalAskVolume ob' = (if A = [] then Fin 0 else cumulative (last A))"
proof -
  have r: "reachable pf (update pf (Some d) ob)"
    using assms by (rule reach_update)
  note inv = reachable_inv[OF r]
  have okB: "ladder_ok (bids (update pf (Some d) ob))"
    and okA: "ladder_ok (asks (update pf (Some d) ob))"
    using inv by simp_all
  have tb: "totalBidVolume (update pf (Some d) ob) =
              foldl jadd (Fin 0) (map quantity (bids (update pf (Some d) ob)))"
    and ta: "totalAskVolume (update pf (Some d) ob) =
              foldl jadd (Fin 0) (map quantity (asks (update pf (Some d) ob)))"
    using inv by (simp_all add: volume_foldl)
  show ?thesis
    unfolding Let_def
    using ladder_ok_adjacent[OF okB] ladder_ok_adjacent[OF okA]
      ladder_ok_last[OF okB] ladder_ok_last[OF okA] tb ta
    by auto
qed

theorem cumulative_after_update_witness:
  "reachable pf_nan (OrderBook_new None) \<and>
   jle (cumulative (bids (update pf_nan (Some snapshot_ex) (OrderBook_new None)) ! 0))
       (cumulative (bids (update pf_nan (Some snapshot_ex) (OrderBook_new None)) ! 1)) \<and>
   cumulative (last (bids (update pf_nan (Some snapshot_ex) (OrderBook_new None)))) = Fin 3 \<and>
   totalBidVolume (update pf_nan (Some snapshot_ex) (OrderBook_new None)) = Fin 3"
  using cumulative_after_update[where pf = pf_nan and ob = "OrderBook_new None"
      and d = snapshot_ex, OF reach_new]
  by (simp add: reach_new snapshot_state idx_def jle_def)

text \<open>
  C9: applying the same raw update, one that has both a bids and an asks array, twice in
  succession gives two states with equal ladders, equal spread and spread percentage and
  equal total volumes (and the same last update id).
\<close>

theorem update_twice_same:
  assumes "u_bids d = Some b" and "u_asks d = Some a"
  shows "let s1 = update pf (Some d) ob; s2 = update pf (Some d) s1
         in bids s2 = bids s1 \<and> asks s2 = asks s1 \<and>
            spreadValue s2 = spreadValue s1 \<and> spreadPercent s2 = spreadPercent s1 \<and>
            totalBidVolume s2 = totalBidVolume s1 \<and> totalAskVolume s2 = totalAskVolume s1 \<and>
            lastUpdateId s2 = lastUpdateId s1"
proof -
  define s1 where "s1 = update pf (Some d) ob"
  define P where "P = processDepthData pf (maxRows ob) b True"
  define Q where "Q = processDepthData pf (maxRows ob) a False"
  define t1 where "t1 = ob\<lparr>lastUpdateId := lastUpdateId s1, bids := P, asks := Q\<rparr>"
  define t2 where
    "t2 = s1\<lparr>lastUpdateId := lastUpdateId (update pf (Some d) s1), bids := P, asks := Q\<rparr>"
  have e1: "s1 = calculateStats t1"
    unfolding s1_def t1_def P_def Q_def using assms update_Some_eq[of pf d ob] by simp
  have e2: "update pf (Some d) s1 = calculateStats t2"
    unfolding t2_def P_def Q_def
    using assms update_Some_eq[of pf d s1] maxRows_update[of pf "Some d" ob]
    by (simp add: s1_def)
  have "bids t2 = bids t1" "asks t2 = asks t1"
    by (simp_all add: t1_def t2_def)
  then have fields:
    "bids (calculateStats t2) = bids (calculateStats t1) \<and>
     asks (calculateStats t2) = asks (calculateStats t1) \<and>
     spreadValue (calculateStats t2) = spreadValue (calculateStats t1) \<and>
     spreadPercent (calculateStats t2) = spreadPercent (calculateStats t1) \<and>
     totalBidVolume (calculateStats t2) = totalBidVolume (calculateStats t1) \<and>
     totalAskVolume (calculateStats t2) = totalAskVolume (calculateStats t1)"
    by (rule calculateStats_cong)
  have id: "lastUpdateId (update pf (Some d) s1) = lastUpdateId s1"
  proof (cases "u_lastUpdateId d")
    case None
    then show ?thesis by (simp add: lastUpdateId_update)
  next
    case (Some i)
    have "lastUpdateId s1 = i \<or> \<not> (truthy (JNumber i) \<and> jgt i (lastUpdateId s1))"
      unfolding s1_def lastUpdateId_update using Some by simp
    then show ?thesis
      using Some by (auto simp: lastUpdateId_update jgt_def jlt_irrefl)
  qed
  show ?thesis
    using fields id unfolding Let_def s1_def[symmetric] e2 by (simp add: e1[symmetric])
qed

theorem update_twice_same_witness:
  "u_bids snapshot_ex = Some (RawArray [pair 100 1, pair 99 2]) \<and>
   u_asks snapshot_ex = Some (RawArray [pair 101 1, pair 102 2]) \<and>
   (let s1 = update pf_nan (Some snapshot_ex) (OrderBook_new None);
        s2 = update pf_nan (Some snapshot_ex) s1
    in bids s2 = bids s1 \<and> asks s2 = asks s1 \<and>
       spreadValue s2 = spreadValue s1 \<and> spreadPercent s2 = spreadPercent s1 \<and>
       totalBidVolume s2 = totalBidVolume s1 \<and> totalAskVolume s2 = totalAskVolume s1 \<and>
       lastUpdateId s2 = lastUpdateId s1)"
  using update_twice_same[of snapshot_ex "RawArray [pair 100 1, pair 99 2]"
      "RawArray [pair 101 1, pair 102 2]" pf_nan "OrderBook_new None"]
  by (simp add: snapshot_ex_def)

text \<open>
  C10: \<^verbatim>\<open>update\<close> called with a null or undefined argument returns at once: the
  stored bids, asks, last update id, spread, spread percentage and total volumes, and
  every other field of the state, are as they were.
\<close>

theorem update_null_noop: "update pf None ob = ob"
  by (simp add: update_def)

end
